theory Spec2Isabelle
  imports Main "HOL-Library.Char_ord" "HOL-Library.List_Lexorder" "HOL-Library.Multiset"
begin

section \<open>JavaScript values and strings\<close>

text \<open>
  The configuration value (\<open>rootValue: unknown\<close>) and every \<open>unknown\<close> field of a hint
  is a JSON-like JavaScript value. A missing optional \<open>unknown\<close> field is \<open>JUndefined\<close>.
  Numbers are modelled as integers (the engine only compares and prints them), printed
  in plain decimal as JavaScript prints the integers below \<open>10^21\<close>; fractional,
  non-finite and larger numbers are outside the model. Strings are lists of characters,
  and case mapping and white space are the ASCII ones: the model covers ASCII strings.
  An object is the list of its own enumerable properties in \<open>Object.entries\<close> order.
  A configuration value holds no functions, so \<open>getValueAtPath\<close> and the renderers
  read the own properties of a configuration object; the members a configuration object
  inherits from \<open>Object.prototype\<close> are outside the model of configuration values.
  The hint table is different: what \<open>hints[key]\<close> reads there decides which hint a
  path gets, and the model of that read (\<open>hintsAt\<close> below) includes the inherited
  members.
\<close>

datatype jsval =
    JUndefined
  | JNull
  | JBool bool
  | JNum int
  | JStr string
  | JArr "jsval list"
  | JObj "(string \<times> jsval) list"

text \<open>A path is \<open>Array<string | number>\<close>; numeric segments are array indices.\<close>

datatype segment = SStr string | SNum nat

type_synonym path = "segment list"

text \<open>\<open>Boolean(value)\<close>.\<close>

fun truthy :: "jsval \<Rightarrow> bool" where
  "truthy JUndefined = False"
| "truthy JNull = False"
| "truthy (JBool b) = b"
| "truthy (JNum n) = (n \<noteq> 0)"
| "truthy (JStr s) = (s \<noteq> [])"
| "truthy (JArr xs) = True"
| "truthy (JObj kvs) = True"

text \<open>\<open>s.split(c)\<close> for a one-character separator: never empty, \<open>"".split(".") = [""]\<close>.\<close>

fun splitOn :: "char \<Rightarrow> string \<Rightarrow> string list" where
  "splitOn c [] = [[]]"
| "splitOn c (x # xs) =
     (if x = c then [] # splitOn c xs
      else (case splitOn c xs of
              [] \<Rightarrow> [[x]]
            | w # ws \<Rightarrow> (x # w) # ws))"

text \<open>\<open>xs.join(".")\<close>.\<close>

fun joinDot :: "string list \<Rightarrow> string" where
  "joinDot [] = []"
| "joinDot [x] = x"
| "joinDot (x # y # ys) = x @ ''.'' @ joinDot (y # ys)"

text \<open>\<open>s.startsWith(p)\<close>, \<open>s.includes(p)\<close> and \<open>s.endsWith(p)\<close>.\<close>

fun startsWith :: "string \<Rightarrow> string \<Rightarrow> bool" where
  "startsWith s [] = True"
| "startsWith [] (p # ps) = False"
| "startsWith (x # xs) (p # ps) = (x = p \<and> startsWith xs ps)"

fun includesStr :: "string \<Rightarrow> string \<Rightarrow> bool" where
  "includesStr [] p = (p = [])"
| "includesStr (x # xs) p = (startsWith (x # xs) p \<or> includesStr xs p)"

definition endsWith :: "string \<Rightarrow> string \<Rightarrow> bool" where
  "endsWith s p = startsWith (rev s) (rev p)"

text \<open>\<open>toLowerCase\<close> and \<open>toUpperCase\<close> on the ASCII letters; other characters are kept.\<close>

definition lowerChar :: "char \<Rightarrow> char" where
  "lowerChar c =
     (case map_of (zip ''ABCDEFGHIJKLMNOPQRSTUVWXYZ'' ''abcdefghijklmnopqrstuvwxyz'') c of
        Some l \<Rightarrow> l
      | None \<Rightarrow> c)"

definition upperChar :: "char \<Rightarrow> char" where
  "upperChar c =
     (case map_of (zip ''abcdefghijklmnopqrstuvwxyz'' ''ABCDEFGHIJKLMNOPQRSTUVWXYZ'') c of
        Some u \<Rightarrow> u
      | None \<Rightarrow> c)"

definition toLowerCase :: "string \<Rightarrow> string" where
  "toLowerCase s = map lowerChar s"

text \<open>\<open>trim\<close> removes leading and trailing white space (the ASCII white space here).\<close>

definition isSpace :: "char \<Rightarrow> bool" where
  "isSpace c = (c \<in> set [CHR '' '', CHR 0x09, CHR 0x0A, CHR 0x0B, CHR 0x0C, CHR 0x0D])"

definition trim :: "string \<Rightarrow> string" where
  "trim s = rev (dropWhile isSpace (rev (dropWhile isSpace s)))"

text \<open>Decimal text of a number, as \<open>String(n)\<close> and \<open>JSON.stringify(n)\<close> print an integer.\<close>

definition digitChar :: "nat \<Rightarrow> char" where
  "digitChar d = ''0123456789'' ! d"

fun natToString :: "nat \<Rightarrow> string" where
  "natToString n =
     (if n < 10 then [digitChar n] else natToString (n div 10) @ [digitChar (n mod 10)])"

declare natToString.simps [simp del]

definition intToString :: "int \<Rightarrow> string" where
  "intToString i = (if i < 0 then CHR ''-'' # natToString (nat (- i)) else natToString (nat i))"

subsection \<open>\<open>JSON.stringify\<close>\<close>

definition hexDigit :: "nat \<Rightarrow> char" where
  "hexDigit d = ''0123456789abcdef'' ! d"

definition escapeChar :: "char \<Rightarrow> string" where
  "escapeChar c =
     (if c = CHR 0x22 then [CHR 0x5C, CHR 0x22]
      else if c = CHR 0x5C then [CHR 0x5C, CHR 0x5C]
      else if c = CHR 0x08 then [CHR 0x5C, CHR ''b'']
      else if c = CHR 0x09 then [CHR 0x5C, CHR ''t'']
      else if c = CHR 0x0A then [CHR 0x5C, CHR ''n'']
      else if c = CHR 0x0C then [CHR 0x5C, CHR ''f'']
      else if c = CHR 0x0D then [CHR 0x5C, CHR ''r'']
      else if (of_char c :: nat) < 32
        then [CHR 0x5C, CHR ''u'', CHR ''0'', CHR ''0'',
              hexDigit ((of_char c :: nat) div 16), hexDigit ((of_char c :: nat) mod 16)]
      else [c])"

definition quoteString :: "string \<Rightarrow> string" where
  "quoteString s = [CHR 0x22] @ concat (map escapeChar s) @ [CHR 0x22]"

fun joinComma :: "string list \<Rightarrow> string" where
  "joinComma [] = []"
| "joinComma [x] = x"
| "joinComma (x # y # ys) = x @ '','' @ joinComma (y # ys)"

text \<open>
  \<open>JSON.stringify(v)\<close> with no indentation: \<open>None\<close> is the result \<open>undefined\<close>. An
  \<open>undefined\<close> array element prints as \<open>null\<close>; an object member whose value is
  \<open>undefined\<close> is left out.
\<close>

fun jsonStringify :: "jsval \<Rightarrow> string option" where
  "jsonStringify JUndefined = None"
| "jsonStringify JNull = Some ''null''"
| "jsonStringify (JBool b) = Some (if b then ''true'' else ''false'')"
| "jsonStringify (JNum n) = Some (intToString n)"
| "jsonStringify (JStr s) = Some (quoteString s)"
| "jsonStringify (JArr xs) =
     Some (''['' @ joinComma (map (\<lambda>x. case jsonStringify x of None \<Rightarrow> ''null'' | Some t \<Rightarrow> t) xs)
           @ '']'')"
| "jsonStringify (JObj kvs) =
     Some (''{'' @ joinComma (concat (map (\<lambda>kv. case jsonStringify (snd kv) of
                                                   None \<Rightarrow> []
                                                 | Some t \<Rightarrow> [quoteString (fst kv) @ '':'' @ t]) kvs))
           @ ''}'')"

section \<open>Hints and paths (\<open>config-form.shared.ts\<close>)\<close>

text \<open>
  \<open>ConfigUiHintImpact\<close> and \<open>ConfigUiHint\<close> as the wire schema
  (\<open>ConfigUiHintSchema\<close>) declares them: every field but \<open>message\<close> is optional,
  \<open>relation\<close>, \<open>when\<close> and \<open>targetWhen\<close> are strings. The field names carry a prefix
  because the three record types of the source share field names.
\<close>

record configUiHintImpact =
  i_relation :: "string option"
  i_targetPath :: "string option"
  i_when :: "string option"
  i_whenValue :: jsval
  i_targetWhen :: "string option"
  i_targetValue :: jsval
  i_message :: string
  i_fixValue :: jsval
  i_fixLabel :: "string option"
  i_docsPath :: "string option"

record configUiHint =
  h_docsPath :: "string option"
  h_label :: "string option"
  h_help :: "string option"
  h_group :: "string option"
  h_order :: "int option"
  h_advanced :: "bool option"
  h_sensitive :: "bool option"
  h_placeholder :: "string option"
  h_itemTemplate :: jsval
  h_impacts :: "configUiHintImpact list option"

text \<open>
  \<open>ConfigUiHints\<close> is a record from keys to hints; the list gives its own entries in
  \<open>Object.entries\<close> order.
\<close>

type_synonym configUiHints = "(string \<times> configUiHint) list"

text \<open>
  The table is a plain object (an object literal, or parsed JSON), so the property read
  \<open>hints[key]\<close> gives the table's own entry under \<open>key\<close> when it has one, and
  otherwise follows the prototype chain: for the names of the members of
  \<open>Object.prototype\<close> it gives the inherited member, and \<open>undefined\<close> for every
  other key. An inherited member is a function (for \<open>__proto__\<close>, the prototype object
  itself): a truthy value that has none of the fields of a hint and no own enumerable
  property. Every reader of a hint reads its fields only (\<open>hint?.label\<close>,
  \<open>hint?.impacts\<close>, the spread in the variant module), so the inherited member is
  modelled as \<open>inheritedMember\<close>, the hint with every field absent.
\<close>

definition objectPrototypeKeys :: "string list" where
  "objectPrototypeKeys =
     [''constructor'', ''__defineGetter__'', ''__defineSetter__'', ''hasOwnProperty'',
      ''__lookupGetter__'', ''__lookupSetter__'', ''isPrototypeOf'', ''propertyIsEnumerable'',
      ''toString'', ''valueOf'', ''__proto__'', ''toLocaleString'']"

definition inheritedMember :: configUiHint where
  "inheritedMember =
     \<lparr> h_docsPath = None, h_label = None, h_help = None, h_group = None, h_order = None,
       h_advanced = None, h_sensitive = None, h_placeholder = None, h_itemTemplate = JUndefined,
       h_impacts = None \<rparr>"

definition hintsAt :: "configUiHints \<Rightarrow> string \<Rightarrow> configUiHint option" where
  "hintsAt hints key =
     (case map_of hints key of
        Some own \<Rightarrow> Some own
      | None \<Rightarrow> if key \<in> set objectPrototypeKeys then Some inheritedMember else None)"

record resolvedConfigImpact =
  r_relation :: string
  r_message :: string
  r_docsPath :: "string option"
  r_targetPath :: "string option"
  r_fixValue :: jsval
  r_fixLabel :: "string option"

text \<open>\<open>path.filter((segment) => typeof segment === "string")\<close>.\<close>

fun stringSegments :: "path \<Rightarrow> string list" where
  "stringSegments [] = []"
| "stringSegments (SStr s # rest) = s # stringSegments rest"
| "stringSegments (SNum n # rest) = stringSegments rest"

definition pathKey :: "path \<Rightarrow> string" where
  "pathKey path = joinDot (stringSegments path)"

text \<open>
  The inner loop of the wildcard match: \<open>i\<close> runs over the indices of \<open>segments\<close>, and
  the first segment of the hint key that is neither \<open>*\<close> nor the path's segment ends it
  with \<open>match = false\<close>. It runs only when both lists have the same length.
\<close>

function matchLoop :: "string list \<Rightarrow> string list \<Rightarrow> nat \<Rightarrow> bool" where
  "matchLoop hintSegments segments i =
     (if i < length segments then
        (if hintSegments ! i \<noteq> ''*'' \<and> hintSegments ! i \<noteq> segments ! i then False
         else matchLoop hintSegments segments (i + 1))
      else True)"
  by pat_completeness auto
termination
  by (relation "measure (\<lambda>(hs, ss, i). length ss - i)") auto

declare matchLoop.simps [simp del]

text \<open>The loop over \<open>Object.entries(hints)\<close>, each \<open>continue\<close> a recursive call on the rest.\<close>

fun hintLoop :: "string list \<Rightarrow> configUiHints \<Rightarrow> configUiHint option" where
  "hintLoop segments [] = None"
| "hintLoop segments ((hintKey, hint) # rest) =
     (if \<not> includesStr hintKey ''*'' then hintLoop segments rest
      else if length (splitOn CHR ''.'' hintKey) \<noteq> length segments then hintLoop segments rest
      else if matchLoop (splitOn CHR ''.'' hintKey) segments 0 then Some hint
      else hintLoop segments rest)"

text \<open>
  \<open>hintForPath\<close> of \<open>config-form.shared.ts\<close>: \<open>direct = hints[key]\<close> is returned
  when it is truthy, as every own entry and every inherited member is. The variant
  module has the same body under the name \<open>resolveHint\<close>.
\<close>

definition hintForPath :: "path \<Rightarrow> configUiHints \<Rightarrow> configUiHint option" where
  "hintForPath path hints =
     (case hintsAt hints (pathKey path) of
        Some direct \<Rightarrow> Some direct
      | None \<Rightarrow> hintLoop (splitOn CHR ''.'' (pathKey path)) hints)"

definition resolveHint :: "path \<Rightarrow> configUiHints \<Rightarrow> configUiHint option" where
  "resolveHint path hints =
     (case hintsAt hints (pathKey path) of
        Some direct \<Rightarrow> Some direct
      | None \<Rightarrow> hintLoop (splitOn CHR ''.'' (pathKey path)) hints)"

definition isSensitivePath :: "path \<Rightarrow> bool" where
  "isSensitivePath path =
     (let key = toLowerCase (pathKey path) in
      includesStr key ''token'' \<or> includesStr key ''password'' \<or> includesStr key ''secret''
      \<or> includesStr key ''apikey'' \<or> endsWith key ''key'')"

section \<open>The impact engine\<close>

definition splitPath :: "string \<Rightarrow> string list" where
  "splitPath p = filter (\<lambda>segment. segment \<noteq> []) (map trim (splitOn CHR ''.'' p))"

text \<open>
  \<open>getValueAtPath\<close>: the cursor walks down plain objects; anything else (a falsy
  value, a primitive, an array) ends the walk with \<open>undefined\<close>, and so does a key
  the object does not hold (the own properties are read, see above).
\<close>

fun getValueAtPath :: "jsval \<Rightarrow> string list \<Rightarrow> jsval" where
  "getValueAtPath cursor [] = cursor"
| "getValueAtPath (JObj kvs) (segment # rest) =
     getValueAtPath (case map_of kvs segment of Some v \<Rightarrow> v | None \<Rightarrow> JUndefined) rest"
| "getValueAtPath cursor (segment # rest) = JUndefined"

text \<open>
  The \<open>map\<close> callback of \<open>resolveWildcardPath\<close>, with its index:
  \<open>sourceSegments[index] ?? segment\<close> keeps the \<open>*\<close> when the index is out of range.
\<close>

fun substituteFrom :: "string list \<Rightarrow> nat \<Rightarrow> string list \<Rightarrow> string list" where
  "substituteFrom sourceSegments index [] = []"
| "substituteFrom sourceSegments index (segment # rest) =
     (if segment \<noteq> ''*'' then segment
      else if index < length sourceSegments then sourceSegments ! index
      else segment) # substituteFrom sourceSegments (Suc index) rest"

definition resolveWildcardPath :: "string \<Rightarrow> path \<Rightarrow> string list" where
  "resolveWildcardPath p sourcePath = substituteFrom (stringSegments sourcePath) 0 (splitPath p)"

text \<open>
  \<open>Object.is\<close> on two values of the model: equal primitives are the same value. Two
  arrays or objects are the same only when they are one reference, which the model does
  not record; \<open>isEqual\<close> then compares their JSON text, and one reference has one text,
  so the answer of \<open>isEqual\<close> is the same either way.
\<close>

fun objectIs :: "jsval \<Rightarrow> jsval \<Rightarrow> bool" where
  "objectIs (JArr xs) rhs = False"
| "objectIs (JObj kvs) rhs = False"
| "objectIs lhs rhs = (lhs = rhs)"

definition isNullish :: "jsval \<Rightarrow> bool" where
  "isNullish v = (v = JUndefined \<or> v = JNull)"

definition isEqual :: "jsval \<Rightarrow> jsval \<Rightarrow> bool" where
  "isEqual lhs rhs =
     (if objectIs lhs rhs then True
      else if isNullish lhs \<or> isNullish rhs then False
      else jsonStringify lhs = jsonStringify rhs)"

definition evaluateCheck :: "jsval \<Rightarrow> string \<Rightarrow> jsval \<Rightarrow> bool" where
  "evaluateCheck v check expected =
     (if check = ''truthy'' then truthy v
      else if check = ''falsy'' then \<not> truthy v
      else if check = ''defined'' then v \<noteq> JUndefined \<and> v \<noteq> JNull \<and> v \<noteq> JStr []
      else if check = ''notDefined'' then v = JUndefined \<or> v = JNull \<or> v = JStr []
      else if check = ''equals'' then isEqual v expected
      else if check = ''notEquals'' then \<not> isEqual v expected
      else if check = ''includes'' then
        (case v of
           JStr s \<Rightarrow> (case expected of JStr e \<Rightarrow> includesStr s e | _ \<Rightarrow> False)
         | JArr entries \<Rightarrow> list_ex (\<lambda>entry. isEqual entry expected) entries
         | _ \<Rightarrow> False)
      else False)"

definition relationForImpact :: "configUiHintImpact \<Rightarrow> string" where
  "relationForImpact impact = (case i_relation impact of Some r \<Rightarrow> r | None \<Rightarrow> ''requires'')"

text \<open>\<open>if (impact.when)\<close>: a missing and an empty string are both falsy.\<close>

definition truthyStr :: "string option \<Rightarrow> bool" where
  "truthyStr s = (case s of None \<Rightarrow> False | Some t \<Rightarrow> t \<noteq> [])"

definition sourceCheckForImpact :: "configUiHintImpact \<Rightarrow> string" where
  "sourceCheckForImpact impact =
     (case i_when impact of
        Some w \<Rightarrow> if w \<noteq> [] then w
                  else if i_whenValue impact \<noteq> JUndefined then ''equals'' else ''truthy''
      | None \<Rightarrow> if i_whenValue impact \<noteq> JUndefined then ''equals'' else ''truthy'')"

definition targetCheckForImpact :: "configUiHintImpact \<Rightarrow> string" where
  "targetCheckForImpact impact =
     (case i_targetWhen impact of
        Some w \<Rightarrow> if w \<noteq> [] then w
                  else if i_targetValue impact \<noteq> JUndefined then ''equals'' else ''truthy''
      | None \<Rightarrow> if i_targetValue impact \<noteq> JUndefined then ''equals'' else ''truthy'')"

text \<open>
  \<open>targetPathSegments\<close>: \<open>null\<close> (here \<open>None\<close>) when the impact has no non-empty
  \<open>targetPath\<close>. A list of segments is truthy even when it is empty.
\<close>

definition targetPathSegments :: "configUiHintImpact \<Rightarrow> path \<Rightarrow> string list option" where
  "targetPathSegments impact path =
     (case i_targetPath impact of
        Some tp \<Rightarrow> if tp \<noteq> [] then Some (resolveWildcardPath tp path) else None
      | None \<Rightarrow> None)"

text \<open>The object pushed for an active impact; a falsy optional string is left out.\<close>

definition resolvedEntry ::
  "string \<Rightarrow> configUiHintImpact \<Rightarrow> string list option \<Rightarrow> resolvedConfigImpact" where
  "resolvedEntry relation impact tps =
     \<lparr> r_relation = relation,
       r_message = i_message impact,
       r_docsPath = (if truthyStr (i_docsPath impact) then i_docsPath impact else None),
       r_targetPath = (case tps of Some segs \<Rightarrow> Some (joinDot segs) | None \<Rightarrow> None),
       r_fixValue = i_fixValue impact,
       r_fixLabel = (if truthyStr (i_fixLabel impact) then i_fixLabel impact else None) \<rparr>"

text \<open>
  The loop of \<open>resolveConfigImpacts\<close> over the impacts: \<open>resolved\<close> is the array the
  loop pushes to, each \<open>continue\<close> goes on with the rest and the array unchanged.
\<close>

fun impactLoop ::
  "path \<Rightarrow> jsval \<Rightarrow> jsval \<Rightarrow> configUiHintImpact list \<Rightarrow> resolvedConfigImpact list
     \<Rightarrow> resolvedConfigImpact list" where
  "impactLoop path rootValue sourceValue [] resolved = resolved"
| "impactLoop path rootValue sourceValue (impact # rest) resolved =
     (let relation = relationForImpact impact;
          sourceCheck = sourceCheckForImpact impact
      in
      if \<not> evaluateCheck sourceValue sourceCheck (i_whenValue impact)
      then impactLoop path rootValue sourceValue rest resolved
      else
        (let tps = targetPathSegments impact path in
         if (case tps of Some segs \<Rightarrow> ''*'' \<in> set segs | None \<Rightarrow> False)
         then impactLoop path rootValue sourceValue rest resolved
         else
           (let targetValue = (case tps of Some segs \<Rightarrow> getValueAtPath rootValue segs
                                          | None \<Rightarrow> JUndefined);
                targetCheck = targetCheckForImpact impact;
                targetMatches = (case tps of
                                   Some segs \<Rightarrow> evaluateCheck targetValue targetCheck (i_targetValue impact)
                                 | None \<Rightarrow> False);
                active = (if relation = ''risk'' then True
                          else if relation = ''conflicts'' then tps \<noteq> None \<and> targetMatches
                          else tps = None \<or> \<not> targetMatches)
            in
            if \<not> active then impactLoop path rootValue sourceValue rest resolved
            else impactLoop path rootValue sourceValue rest
                   (resolved @ [resolvedEntry relation impact tps]))))"

definition hintImpacts :: "configUiHint option \<Rightarrow> configUiHintImpact list" where
  "hintImpacts hint =
     (case hint of
        None \<Rightarrow> []
      | Some h \<Rightarrow> (case h_impacts h of None \<Rightarrow> [] | Some imps \<Rightarrow> imps))"

text \<open>
  \<open>resolveConfigImpacts\<close>, with the hint it starts from as argument: the two modules
  differ only in the \<open>hintForPath\<close> they call.
\<close>

definition resolveImpactsOf ::
  "configUiHint option \<Rightarrow> path \<Rightarrow> jsval \<Rightarrow> resolvedConfigImpact list" where
  "resolveImpactsOf hint path rootValue =
     (let impacts = hintImpacts hint in
      if length impacts = 0 then []
      else impactLoop path rootValue (getValueAtPath rootValue (stringSegments path)) impacts [])"

definition resolveConfigImpacts ::
  "path \<Rightarrow> configUiHints \<Rightarrow> jsval \<Rightarrow> resolvedConfigImpact list" where
  "resolveConfigImpacts path hints rootValue =
     resolveImpactsOf (hintForPath path hints) path rootValue"

section \<open>The variant module with built-in fallback hints\<close>

definition noImpact :: configUiHintImpact where
  "noImpact =
     \<lparr> i_relation = None, i_targetPath = None, i_when = None, i_whenValue = JUndefined,
       i_targetWhen = None, i_targetValue = JUndefined, i_message = [], i_fixValue = JUndefined,
       i_fixLabel = None, i_docsPath = None \<rparr>"

definition noHint :: configUiHint where
  "noHint =
     \<lparr> h_docsPath = None, h_label = None, h_help = None, h_group = None, h_order = None,
       h_advanced = None, h_sensitive = None, h_placeholder = None, h_itemTemplate = JUndefined,
       h_impacts = None \<rparr>"

definition botLoopImpact :: configUiHintImpact where
  "botLoopImpact =
     noImpact \<lparr> i_relation := Some ''risk'', i_when := Some ''truthy'',
       i_message := ''Allowing bot-authored messages can create bot-to-bot reply loops. Keep mention/allowlist guardrails in place.'',
       i_docsPath := Some ''/gateway/security'' \<rparr>"

definition openDmImpact :: "string \<Rightarrow> configUiHintImpact" where
  \<open>openDmImpact target =
     noImpact \<lparr> i_relation := Some ''requires'', i_when := Some ''equals'',
       i_whenValue := JStr ''open'', i_targetPath := Some target,
       i_targetWhen := Some ''includes'', i_targetValue := JStr ''*'',
       i_message := ''Open DM policy requires allowFrom to include "*".'',
       i_fixValue := JArr [JStr ''*''], i_fixLabel := Some ''Allow all ("*")'' \<rparr>\<close>

definition draftStreamingImpact :: "string \<Rightarrow> configUiHintImpact" where
  "draftStreamingImpact target =
     noImpact \<lparr> i_relation := Some ''conflicts'', i_when := Some ''notEquals'',
       i_whenValue := JStr ''off'', i_targetPath := Some target, i_targetWhen := Some ''truthy'',
       i_message := ''Telegram draft streaming can suppress block streaming for a reply. Use streamMode=off for block-only behavior.'' \<rparr>"

text \<open>\<open>FALLBACK_UI_HINTS\<close>, entry by entry in the order of the object literal.\<close>

definition FALLBACK_UI_HINTS :: configUiHints where
  \<open>FALLBACK_UI_HINTS =
     [(''channels.*.allowBots'',
         noHint \<lparr> h_help := Some ''Allow replies to bot-authored messages (default: off). Keep mention/allowlist guardrails to avoid bot loops.'',
           h_docsPath := Some ''/gateway/configuration'', h_impacts := Some [botLoopImpact] \<rparr>),
      (''channels.*.accounts.*.allowBots'',
         noHint \<lparr> h_help := Some ''Allow replies to bot-authored messages for this account (default: off).'',
           h_docsPath := Some ''/gateway/configuration'', h_impacts := Some [botLoopImpact] \<rparr>),
      (''channels.*.blockStreaming'',
         noHint \<lparr> h_help := Some ''Emit completed reply chunks while generating, instead of waiting for one final message.'',
           h_docsPath := Some ''/concepts/streaming'' \<rparr>),
      (''channels.*.accounts.*.blockStreaming'',
         noHint \<lparr> h_help := Some ''Emit completed reply chunks while generating for this account.'',
           h_docsPath := Some ''/concepts/streaming'' \<rparr>),
      (''channels.*.capabilities'',
         noHint \<lparr> h_help := Some ''Optional runtime capability tags. Leave empty unless channel docs explicitly require a tag.'',
           h_docsPath := Some ''/gateway/configuration'' \<rparr>),
      (''channels.*.accounts.*.capabilities'',
         noHint \<lparr> h_help := Some ''Optional runtime capability tags for this account. Leave empty unless docs require one.'',
           h_docsPath := Some ''/gateway/configuration'' \<rparr>),
      (''channels.*.dm.policy'',
         noHint \<lparr> h_help := Some ''DM access policy. If set to "open", allowFrom should include "*".'',
           h_docsPath := Some ''/gateway/security'',
           h_impacts := Some [openDmImpact ''channels.*.dm.allowFrom''] \<rparr>),
      (''channels.*.accounts.*.dm.policy'',
         noHint \<lparr> h_help := Some ''DM access policy for this account. If set to "open", allowFrom should include "*".'',
           h_docsPath := Some ''/gateway/security'',
           h_impacts := Some [openDmImpact ''channels.*.accounts.*.dm.allowFrom''] \<rparr>),
      (''channels.*.dmPolicy'',
         noHint \<lparr> h_help := Some ''DM access policy. If set to "open", allowFrom should include "*".'',
           h_docsPath := Some ''/gateway/security'' \<rparr>),
      (''channels.*.accounts.*.dmPolicy'',
         noHint \<lparr> h_help := Some ''DM access policy for this account. If set to "open", allowFrom should include "*".'',
           h_docsPath := Some ''/gateway/security'' \<rparr>),
      (''channels.telegram.streamMode'',
         noHint \<lparr> h_docsPath := Some ''/concepts/streaming'',
           h_impacts := Some [draftStreamingImpact ''channels.telegram.blockStreaming''] \<rparr>),
      (''channels.telegram.accounts.*.streamMode'',
         noHint \<lparr> h_docsPath := Some ''/concepts/streaming'',
           h_impacts := Some [draftStreamingImpact ''channels.telegram.accounts.*.blockStreaming''] \<rparr>)]\<close>

text \<open>\<open>a ?? b\<close> on an optional field, and the spread of two hints: a field the backend
  hint has replaces the fallback's.\<close>

definition orElse :: "'a option \<Rightarrow> 'a option \<Rightarrow> 'a option" where
  "orElse a b = (case a of Some v \<Rightarrow> Some v | None \<Rightarrow> b)"

definition impactsOrEmpty :: "configUiHint \<Rightarrow> configUiHintImpact list" where
  "impactsOrEmpty h = (case h_impacts h of Some imps \<Rightarrow> imps | None \<Rightarrow> [])"

definition mergeHints :: "configUiHint \<Rightarrow> configUiHint \<Rightarrow> configUiHint" where
  "mergeHints fallback resolved =
     \<lparr> h_docsPath = orElse (h_docsPath resolved) (h_docsPath fallback),
       h_label = orElse (h_label resolved) (h_label fallback),
       h_help = orElse (h_help resolved) (h_help fallback),
       h_group = orElse (h_group resolved) (h_group fallback),
       h_order = orElse (h_order resolved) (h_order fallback),
       h_advanced = orElse (h_advanced resolved) (h_advanced fallback),
       h_sensitive = orElse (h_sensitive resolved) (h_sensitive fallback),
       h_placeholder = orElse (h_placeholder resolved) (h_placeholder fallback),
       h_itemTemplate = (if h_itemTemplate resolved \<noteq> JUndefined then h_itemTemplate resolved
                         else h_itemTemplate fallback),
       h_impacts = Some (impactsOrEmpty fallback @ impactsOrEmpty resolved) \<rparr>"

text \<open>\<open>hintForPath\<close> of the variant module.\<close>

definition hintForPath_fb :: "path \<Rightarrow> configUiHints \<Rightarrow> configUiHint option" where
  "hintForPath_fb path hints =
     (let fallback = resolveHint path FALLBACK_UI_HINTS;
          resolved = resolveHint path hints
      in case fallback of
           None \<Rightarrow> resolved
         | Some fb \<Rightarrow>
             (case resolved of
                None \<Rightarrow> Some fb
              | Some rs \<Rightarrow> Some (mergeHints fb rs)))"

definition resolveConfigImpacts_fb ::
  "path \<Rightarrow> configUiHints \<Rightarrow> jsval \<Rightarrow> resolvedConfigImpact list" where
  "resolveConfigImpacts_fb path hints rootValue =
     resolveImpactsOf (hintForPath_fb path hints) path rootValue"

section \<open>Schemas (\<open>JsonSchema\<close>)\<close>

text \<open>
  \<open>type?: string | string[]\<close>, \<open>items?: JsonSchema | JsonSchema[]\<close> and
  \<open>additionalProperties?: JsonSchema | boolean\<close>.
\<close>

datatype schemaTypeField = TypeAbsent | TypeOne string | TypeMany "string list"

datatype 'a itemsField = ItemsAbsent | ItemsOne 'a | ItemsMany "'a list"

datatype 'a additionalField = AdditionalAbsent | AdditionalBool bool | AdditionalSchema 'a

text \<open>
  The fields of \<open>JsonSchema\<close> in the order of the type declaration. \<open>properties\<close> is
  the list of its entries in \<open>Object.entries\<close> order; an absent \<open>const\<close> or \<open>default\<close>
  is \<open>JUndefined\<close>. \<open>s_otherKeys\<close> lists the keys of the schema object that the type
  does not declare: \<open>isAnySchema\<close> counts them.
\<close>

datatype jsonSchema = JsonSchema
  (s_type: schemaTypeField)
  (s_title: "string option")
  (s_description: "string option")
  (s_properties: "(string \<times> jsonSchema) list option")
  (s_items: "jsonSchema itemsField")
  (s_additionalProperties: "jsonSchema additionalField")
  (s_enum: "jsval list option")
  (s_const: jsval)
  (s_default: jsval)
  (s_anyOf: "jsonSchema list option")
  (s_oneOf: "jsonSchema list option")
  (s_allOf: "jsonSchema list option")
  (s_nullable: "bool option")
  (s_otherKeys: "string list")

definition schemaType :: "jsonSchema \<Rightarrow> string option" where
  "schemaType schema =
     (case s_type schema of
        TypeAbsent \<Rightarrow> None
      | TypeOne t \<Rightarrow> Some t
      | TypeMany ts \<Rightarrow>
          (case filter (\<lambda>t. t \<noteq> ''null'') ts of
             f # fs \<Rightarrow> Some f
           | [] \<Rightarrow> (case ts of t # rest \<Rightarrow> Some t | [] \<Rightarrow> None)))"

text \<open>\<open>defaultValue(schema?)\<close>; \<open>None\<close> is a missing schema.\<close>

definition defaultValue :: "jsonSchema option \<Rightarrow> jsval" where
  "defaultValue schema =
     (case schema of
        None \<Rightarrow> JStr []
      | Some s \<Rightarrow>
          if s_default s \<noteq> JUndefined then s_default s
          else (let type = schemaType s in
                if type = Some ''object'' then JObj []
                else if type = Some ''array'' then JArr []
                else if type = Some ''boolean'' then JBool False
                else if type = Some ''number'' \<or> type = Some ''integer'' then JNum 0
                else if type = Some ''string'' then JStr []
                else JStr []))"

section \<open>Labels and links\<close>

definition isLowerOrDigit :: "char \<Rightarrow> bool" where
  "isLowerOrDigit c = (c \<in> set ''abcdefghijklmnopqrstuvwxyz0123456789'')"

definition isUpper :: "char \<Rightarrow> bool" where
  "isUpper c = (c \<in> set ''ABCDEFGHIJKLMNOPQRSTUVWXYZ'')"

text \<open>\<open>replace(/([a-z0-9])([A-Z])/g, "$1 $2")\<close>: the scan goes on after the pair.\<close>

fun spaceCamel :: "string \<Rightarrow> string" where
  "spaceCamel (a # b # rest) =
     (if isLowerOrDigit a \<and> isUpper b then a # CHR '' '' # b # spaceCamel rest
      else a # spaceCamel (b # rest))"
| "spaceCamel s = s"

text \<open>\<open>replace(/\s+/g, " ")\<close>.\<close>

function collapseSpaces :: "string \<Rightarrow> string" where
  "collapseSpaces [] = []"
| "collapseSpaces (c # cs) =
     (if isSpace c then CHR '' '' # collapseSpaces (dropWhile isSpace cs)
      else c # collapseSpaces cs)"
  by pat_completeness auto
termination
  by (relation "measure length") (auto simp: length_dropWhile_le less_Suc_eq_le)

definition capitalize :: "string \<Rightarrow> string" where
  "capitalize s = (case s of [] \<Rightarrow> [] | c # cs \<Rightarrow> upperChar c # cs)"

definition humanize :: "string \<Rightarrow> string" where
  "humanize raw =
     capitalize (collapseSpaces (spaceCamel (map (\<lambda>c. if c = CHR ''_'' then CHR '' '' else c) raw)))"

text \<open>\<open>String(path.at(-1))\<close>: the last segment, \<open>undefined\<close> for the empty path.\<close>

definition lastSegmentText :: "path \<Rightarrow> string" where
  "lastSegmentText path =
     (case rev path of
        [] \<Rightarrow> ''undefined''
      | SStr s # rest \<Rightarrow> s
      | SNum n # rest \<Rightarrow> natToString n)"

text \<open>\<open>hint?.label ?? schema.title ?? humanize(String(path.at(-1)))\<close> and
  \<open>hint?.help ?? schema.description\<close>, which every renderer starts with.\<close>

definition nodeLabel :: "configUiHint option \<Rightarrow> jsonSchema \<Rightarrow> path \<Rightarrow> string" where
  "nodeLabel hint schema path =
     (case (case hint of None \<Rightarrow> None | Some h \<Rightarrow> h_label h) of
        Some l \<Rightarrow> l
      | None \<Rightarrow> (case s_title schema of
                   Some t \<Rightarrow> t
                 | None \<Rightarrow> humanize (lastSegmentText path)))"

definition nodeHelp :: "configUiHint option \<Rightarrow> jsonSchema \<Rightarrow> string option" where
  "nodeHelp hint schema =
     (case (case hint of None \<Rightarrow> None | Some h \<Rightarrow> h_help h) of
        Some t \<Rightarrow> Some t
      | None \<Rightarrow> s_description schema)"

definition toDocsUrl :: "string option \<Rightarrow> string option" where
  "toDocsUrl p =
     (case p of
        None \<Rightarrow> None
      | Some t \<Rightarrow>
          (let raw = trim t in
           if raw = [] then None
           else if startsWith raw ''http://'' \<or> startsWith raw ''https://'' then Some raw
           else if \<not> startsWith raw ''/'' then Some (''https://docs.openclaw.ai/'' @ raw)
           else Some (''https://docs.openclaw.ai'' @ raw)))"

definition singularizeLabel :: "string \<Rightarrow> string" where
  "singularizeLabel label =
     (let trimmed = trim label in
      if trimmed = [] then ''item''
      else if endsWith trimmed ''ies'' \<and> length trimmed > 3
        then take (length trimmed - 3) trimmed @ ''y''
      else if endsWith trimmed ''s'' \<and> length trimmed > 1
        then take (length trimmed - 1) trimmed
      else trimmed)"

definition inferArrayItemTypeLabel :: "jsonSchema \<Rightarrow> string" where
  "inferArrayItemTypeLabel schema =
     (let type = schemaType schema in
      if type = Some ''string'' then ''text''
      else if type = Some ''number'' \<or> type = Some ''integer'' then ''number''
      else if type = Some ''boolean'' then ''true/false''
      else if type = Some ''object'' then ''object''
      else if type = Some ''array'' then ''list''
      else if (case s_enum schema of None \<Rightarrow> False | Some opts \<Rightarrow> length opts \<noteq> 0)
        then ''one of the listed options''
      else ''value'')"

record mapFieldGuidance =
  g_addLabel :: string
  g_keyPlaceholder :: string
  g_keyHelp :: "string option"

text \<open>\<open>segments[i]?.toLowerCase()\<close>: \<open>None\<close> when the index is out of range.\<close>

definition lowerAt :: "string list \<Rightarrow> int \<Rightarrow> string option" where
  "lowerAt segments i =
     (if 0 \<le> i \<and> i < int (length segments) then Some (toLowerCase (segments ! nat i)) else None)"

definition inferMapFieldGuidance :: "path \<Rightarrow> string \<Rightarrow> mapFieldGuidance" where
  "inferMapFieldGuidance path fallbackLabel =
     (let segments = stringSegments path;
          leaf = (case lowerAt segments (int (length segments) - 1) of Some t \<Rightarrow> t | None \<Rightarrow> []);
          secondLast = (case lowerAt segments (int (length segments) - 2) of Some t \<Rightarrow> t | None \<Rightarrow> []);
          channelId = lowerAt segments 1
      in
      if leaf = ''accounts'' then
        \<lparr> g_addLabel = ''Add Account'', g_keyPlaceholder = ''main'',
          g_keyHelp = Some ''Use a stable account ID key (for example: main, work, or backup).'' \<rparr>
      else if leaf = ''guilds'' then
        \<lparr> g_addLabel = ''Add Guild'', g_keyPlaceholder = ''123456789012345678'',
          g_keyHelp = Some ''Use Discord guild IDs (or configured slugs).'' \<rparr>
      else if leaf = ''channels'' \<and> (channelId = Some ''discord'' \<or> secondLast = ''guilds'') then
        \<lparr> g_addLabel = ''Add Channel'', g_keyPlaceholder = ''123456789012345678'',
          g_keyHelp = Some ''Use Discord channel IDs.'' \<rparr>
      else if leaf = ''channels'' \<and> channelId = Some ''slack'' then
        \<lparr> g_addLabel = ''Add Channel'', g_keyPlaceholder = ''C1234567890'',
          g_keyHelp = Some ''Use Slack channel IDs (or canonical channel keys from your config).'' \<rparr>
      else if leaf = ''groups'' \<and> channelId = Some ''googlechat'' then
        \<lparr> g_addLabel = ''Add Space'', g_keyPlaceholder = ''spaces/AAAA1234'',
          g_keyHelp = Some ''Use Google Chat space IDs.'' \<rparr>
      else if leaf = ''groups'' then
        \<lparr> g_addLabel = ''Add Group'', g_keyPlaceholder = ''group-id'',
          g_keyHelp = Some ''Use a group/chat ID key recognized by this channel.'' \<rparr>
      else if leaf = ''dms'' then
        \<lparr> g_addLabel = ''Add DM'', g_keyPlaceholder = ''user-id'',
          g_keyHelp = Some ''Use the sender/user ID for per-DM overrides.'' \<rparr>
      else if leaf = ''entries'' then
        \<lparr> g_addLabel = ''Add Entry'', g_keyPlaceholder = ''plugin-id'',
          g_keyHelp = Some ''Use a unique entry key (for example a plugin or provider ID).'' \<rparr>
      else
        \<lparr> g_addLabel = ''Add '' @ humanize (singularizeLabel fallbackLabel),
          g_keyPlaceholder = ''custom-key'', g_keyHelp = None \<rparr>)"

definition impactToneClass :: "string \<Rightarrow> string" where
  "impactToneClass relation =
     (if relation = ''requires'' \<or> relation = ''conflicts'' then ''danger''
      else if relation = ''risk'' then ''warn''
      else ''info'')"

text \<open>\<open>String(v)\<close> on a value. Inside an array \<open>null\<close> and \<open>undefined\<close> print as nothing.\<close>

fun jsToString :: "jsval \<Rightarrow> string" where
  "jsToString JUndefined = ''undefined''"
| "jsToString JNull = ''null''"
| "jsToString (JBool b) = (if b then ''true'' else ''false'')"
| "jsToString (JNum n) = intToString n"
| "jsToString (JStr s) = s"
| "jsToString (JArr xs) =
     joinComma (map (\<lambda>x. if x = JUndefined \<or> x = JNull then [] else jsToString x) xs)"
| "jsToString (JObj kvs) = ''[object Object]''"

text \<open>\<open>a ?? b\<close> on values.\<close>

definition nullish :: "jsval \<Rightarrow> jsval \<Rightarrow> jsval" where
  "nullish a b = (if isNullish a then b else a)"

text \<open>\<open>opt === resolvedValue || String(opt) === String(resolvedValue)\<close>; \<open>===\<close> on two
  arrays or objects is reference identity, which implies the same \<open>String\<close>.\<close>

definition sameOption :: "jsval \<Rightarrow> jsval \<Rightarrow> bool" where
  "sameOption opt resolvedValue =
     (objectIs opt resolvedValue \<or> jsToString opt = jsToString resolvedValue)"

section \<open>Rendered views\<close>

text \<open>
  The renderer returns lit templates. A view keeps what a template shows and does: the
  kind of control, its texts and state, its nesting, and for each button or choice the
  call \<open>onPatch(path, value)\<close> its handler makes when it is used (a \<open>patch\<close>). CSS
  classes and icons are left out, and so are the handlers of free text entry (they
  depend on what the user types and on \<open>Number\<close> parsing) and of the map editor's add
  and rename controls.
\<close>

type_synonym patch = "path \<times> jsval"

record button =
  b_text :: string
  b_disabled :: bool
  b_click :: patch

record impactView =
  iv_tone :: string
  iv_message :: string
  iv_docsHref :: "string option"
  iv_fix :: "button option"

record assistView =
  as_help :: "string option"
  as_docsUrl :: "string option"
  as_impacts :: "impactView list"

record segButton =
  sb_text :: string
  sb_active :: bool
  sb_disabled :: bool
  sb_click :: patch

record segmentedView =
  sg_label :: "string option"
  sg_assist :: "assistView option"
  sg_buttons :: "segButton list"

record selectOption =
  so_value :: string
  so_text :: string
  so_choose :: patch

record selectView =
  sel_label :: "string option"
  sel_assist :: "assistView option"
  sel_disabled :: bool
  sel_value :: string
  sel_options :: "selectOption list"

record toggleView =
  tg_label :: string
  tg_checked :: bool
  tg_disabled :: bool
  tg_check :: patch
  tg_uncheck :: patch
  tg_assist :: "assistView option"

record numberView =
  ni_label :: "string option"
  ni_assist :: "assistView option"
  ni_disabled :: bool
  ni_value :: string
  ni_decrement :: patch
  ni_increment :: patch

record textView =
  ti_label :: "string option"
  ti_assist :: "assistView option"
  ti_type :: string
  ti_placeholder :: string
  ti_value :: string
  ti_disabled :: bool
  ti_reset :: "patch option"

record arrayHeader =
  ah_label :: "string option"
  ah_count :: string
  ah_add :: button
  ah_assist :: "assistView option"
  ah_meta :: string
  ah_empty :: "string option"

record mapHeader =
  mh_label :: string
  mh_addLabel :: string
  mh_disabled :: bool
  mh_assist :: "assistView option"
  mh_meta :: string
  mh_empty :: "string option"

datatype view =
    VError string string
  | VSegmented segmentedView
  | VSelect selectView
  | VToggle toggleView
  | VNumber numberView
  | VText textView
  | VObjectTop fields "view option"
  | VObjectDetails bool string "string option" fields "view option"
  | VArray arrayHeader "arrayItem list"
  | VMap mapHeader "mapItem list"
and fields =
    Flat "view list"
  | Grouped "groupView list"
and groupView =
    GroupAdvanced string "view list"
  | GroupSection "string option" "view list"
and arrayItem = ArrayItem string button view
and mapItem = MapItem string string mapValue button
and mapValue =
    JsonArea jsval
  | Editor view

text \<open>
  \<open>VError label text\<close> is the error field. \<open>VObjectTop\<close> is the plain list of
  fields of a top-level object; \<open>VObjectDetails open title help\<close> is the collapsible
  section, each with the map editor when the object allows extra keys. An
  \<open>ArrayItem\<close> has its index label, its remove button and its editor; a \<open>MapItem\<close>
  its key, the key's placeholder, its value editor and its remove button.
\<close>

record renderParams =
  p_schema :: jsonSchema
  p_value :: jsval
  p_rootValue :: jsval
  p_path :: path
  p_hints :: configUiHints
  p_unsupported :: "string set"
  p_disabled :: bool
  p_showLabel :: "bool option"

definition showLabelOf :: "renderParams \<Rightarrow> bool" where
  "showLabelOf params = (case p_showLabel params of Some b \<Rightarrow> b | None \<Rightarrow> True)"

definition segmentsPath :: "string list \<Rightarrow> path" where
  "segmentsPath segs = map SStr segs"

definition renderImpact :: "bool \<Rightarrow> resolvedConfigImpact \<Rightarrow> impactView" where
  "renderImpact disabled impact =
     \<lparr> iv_tone = impactToneClass (r_relation impact),
       iv_message = r_message impact,
       iv_docsHref = toDocsUrl (r_docsPath impact),
       iv_fix =
         (case r_targetPath impact of
            None \<Rightarrow> None
          | Some tp \<Rightarrow>
              if tp \<noteq> [] \<and> r_fixValue impact \<noteq> JUndefined
              then Some \<lparr> b_text = (case r_fixLabel impact of Some l \<Rightarrow> l | None \<Rightarrow> ''Apply fix''),
                          b_disabled = disabled,
                          b_click = (segmentsPath (splitOn CHR ''.'' tp), r_fixValue impact) \<rparr>
              else None) \<rparr>"

definition renderFieldAssist ::
  "path \<Rightarrow> configUiHints \<Rightarrow> string option \<Rightarrow> jsval \<Rightarrow> bool \<Rightarrow> assistView option" where
  "renderFieldAssist path hints help rootValue disabled =
     (let hint = hintForPath path hints;
          docsUrl = toDocsUrl (case hint of None \<Rightarrow> None | Some h \<Rightarrow> h_docsPath h);
          impacts = resolveConfigImpacts path hints rootValue
      in
      if \<not> truthyStr help \<and> docsUrl = None \<and> length impacts = 0 then None
      else Some \<lparr> as_help = (if truthyStr help then help else None),
                  as_docsUrl = docsUrl,
                  as_impacts = map (renderImpact disabled) impacts \<rparr>)"

text \<open>The assist block of a field, from the parameters every renderer receives.\<close>

definition fieldAssist :: "renderParams \<Rightarrow> assistView option" where
  "fieldAssist params =
     renderFieldAssist (p_path params) (p_hints params)
       (nodeHelp (hintForPath (p_path params) (p_hints params)) (p_schema params))
       (p_rootValue params) (p_disabled params)"

definition fieldLabel :: "renderParams \<Rightarrow> string" where
  "fieldLabel params =
     nodeLabel (hintForPath (p_path params) (p_hints params)) (p_schema params) (p_path params)"

text \<open>
  The segmented control, written out twice in \<open>renderNode\<close> (for a union of literals
  and for an enum): one button per option, in order, each patching the field's path
  with its option.
\<close>

definition segmentedField :: "renderParams \<Rightarrow> jsval list \<Rightarrow> view" where
  "segmentedField params options =
     (let resolvedValue = nullish (p_value params) (s_default (p_schema params)) in
      VSegmented
        \<lparr> sg_label = (if showLabelOf params then Some (fieldLabel params) else None),
          sg_assist = fieldAssist params,
          sg_buttons =
            map (\<lambda>opt. \<lparr> sb_text = jsToString opt,
                           sb_active = sameOption opt resolvedValue,
                           sb_disabled = p_disabled params,
                           sb_click = (p_path params, opt) \<rparr>) options \<rparr>)"

text \<open>\<open>options.findIndex(...)\<close>: \<open>None\<close> is \<open>-1\<close>.\<close>

fun findIndexFrom :: "nat \<Rightarrow> ('a \<Rightarrow> bool) \<Rightarrow> 'a list \<Rightarrow> nat option" where
  "findIndexFrom i P [] = None"
| "findIndexFrom i P (x # xs) = (if P x then Some i else findIndexFrom (Suc i) P xs)"

text \<open>\<open>xs.map((x, idx) => ...)\<close>: the elements with their indices.\<close>

fun indexedFrom :: "nat \<Rightarrow> 'a list \<Rightarrow> (nat \<times> 'a) list" where
  "indexedFrom i [] = []"
| "indexedFrom i (x # xs) = (i, x) # indexedFrom (Suc i) xs"

definition renderSelect :: "renderParams \<Rightarrow> jsval list \<Rightarrow> view" where
  "renderSelect params options =
     (let resolvedValue = nullish (p_value params) (s_default (p_schema params));
          currentIndex = findIndexFrom 0 (\<lambda>opt. sameOption opt resolvedValue) options;
          unset = ''__unset__''
      in
      VSelect
        \<lparr> sel_label = (if showLabelOf params then Some (fieldLabel params) else None),
          sel_assist = fieldAssist params,
          sel_disabled = p_disabled params,
          sel_value = (case currentIndex of Some i \<Rightarrow> natToString i | None \<Rightarrow> unset),
          sel_options =
            \<lparr> so_value = unset, so_text = ''Select...'', so_choose = (p_path params, JUndefined) \<rparr>
            # map (\<lambda>(idx, opt). \<lparr> so_value = natToString idx, so_text = jsToString opt,
                                     so_choose = (p_path params, opt) \<rparr>)
                (indexedFrom 0 options) \<rparr>)"

definition bullets :: string where
  "bullets = concat (replicate 4 [CHR 0xE2, CHR 0x80, CHR 0xA2])"

definition renderTextInput :: "renderParams \<Rightarrow> string \<Rightarrow> view" where
  "renderTextInput params inputType =
     (let schema = p_schema params;
          hint = hintForPath (p_path params) (p_hints params);
          isSensitive = (case (case hint of None \<Rightarrow> None | Some h \<Rightarrow> h_sensitive h) of
                           Some b \<Rightarrow> b
                         | None \<Rightarrow> isSensitivePath (p_path params));
          placeholder = (case (case hint of None \<Rightarrow> None | Some h \<Rightarrow> h_placeholder h) of
                           Some t \<Rightarrow> t
                         | None \<Rightarrow>
                             if isSensitive then bullets
                             else if s_default schema \<noteq> JUndefined
                               then ''Default: '' @ jsToString (s_default schema)
                             else []);
          displayValue = nullish (p_value params) (JStr [])
      in
      VText
        \<lparr> ti_label = (if showLabelOf params then Some (fieldLabel params) else None),
          ti_assist = fieldAssist params,
          ti_type = (if isSensitive then ''password'' else inputType),
          ti_placeholder = placeholder,
          ti_value = (if isNullish displayValue then [] else jsToString displayValue),
          ti_disabled = p_disabled params,
          ti_reset = (if s_default schema \<noteq> JUndefined
                      then Some (p_path params, s_default schema) else None) \<rparr>)"

definition renderNumberInput :: "renderParams \<Rightarrow> view" where
  "renderNumberInput params =
     (let schema = p_schema params;
          displayValue = nullish (nullish (p_value params) (s_default schema)) (JStr []);
          numValue = (case displayValue of JNum n \<Rightarrow> n | _ \<Rightarrow> 0)
      in
      VNumber
        \<lparr> ni_label = (if showLabelOf params then Some (fieldLabel params) else None),
          ni_assist = fieldAssist params,
          ni_disabled = p_disabled params,
          ni_value = (if isNullish displayValue then [] else jsToString displayValue),
          ni_decrement = (p_path params, JNum (numValue - 1)),
          ni_increment = (p_path params, JNum (numValue + 1)) \<rparr>)"

text \<open>The toggle row \<open>renderNode\<close> builds for a boolean.\<close>

definition booleanField :: "renderParams \<Rightarrow> view" where
  "booleanField params =
     (let displayValue =
            (case p_value params of
               JBool b \<Rightarrow> b
             | _ \<Rightarrow> (case s_default (p_schema params) of JBool d \<Rightarrow> d | _ \<Rightarrow> False))
      in
      VToggle
        \<lparr> tg_label = fieldLabel params,
          tg_checked = displayValue,
          tg_disabled = p_disabled params,
          tg_check = (p_path params, JBool True),
          tg_uncheck = (p_path params, JBool False),
          tg_assist = fieldAssist params \<rparr>)"

section \<open>Unions\<close>

definition isNullVariant :: "jsonSchema \<Rightarrow> bool" where
  "isNullVariant v =
     (case s_type v of
        TypeOne t \<Rightarrow> t = ''null''
      | TypeMany ts \<Rightarrow> ''null'' \<in> set ts
      | TypeAbsent \<Rightarrow> False)"

definition unionVariants :: "jsonSchema \<Rightarrow> jsonSchema list" where
  "unionVariants schema =
     (case s_anyOf schema of
        Some vs \<Rightarrow> vs
      | None \<Rightarrow> (case s_oneOf schema of Some vs \<Rightarrow> vs | None \<Rightarrow> []))"

definition nonNullVariants :: "jsonSchema \<Rightarrow> jsonSchema list" where
  "nonNullVariants schema = filter (\<lambda>v. \<not> isNullVariant v) (unionVariants schema)"

definition extractLiteral :: "jsonSchema \<Rightarrow> jsval" where
  "extractLiteral v =
     (if s_const v \<noteq> JUndefined then s_const v
      else (case s_enum v of
              Some [e] \<Rightarrow> e
            | _ \<Rightarrow> JUndefined))"

text \<open>
  \<open>{ ...schema, type: "boolean", anyOf: undefined, oneOf: undefined }\<close>.
\<close>

definition asBoolean :: "jsonSchema \<Rightarrow> jsonSchema" where
  "asBoolean schema =
     JsonSchema (TypeOne ''boolean'') (s_title schema) (s_description schema)
       (s_properties schema) (s_items schema) (s_additionalProperties schema) (s_enum schema)
       (s_const schema) (s_default schema) None None (s_allOf schema) (s_nullable schema)
       (s_otherKeys schema)"

text \<open>
  What the \<open>anyOf\<close>/\<open>oneOf\<close> block of \<open>renderNode\<close> does, in the order of its
  \<open>return\<close> statements: render the single non-null variant, a segmented control or a
  select over literals, the schema as a boolean, a text input; or nothing, and
  \<open>renderNode\<close> goes on below the block.
\<close>

datatype unionOutcome =
    UseVariant jsonSchema
  | UseSegmented "jsval list"
  | UseSelect "jsval list"
  | UseBoolean
  | UseText string
  | FallThrough

definition unionBlock :: "jsonSchema \<Rightarrow> unionOutcome" where
  "unionBlock schema =
     (if s_anyOf schema = None \<and> s_oneOf schema = None then FallThrough
      else
        (let nonNull = nonNullVariants schema in
         case nonNull of
           [v] \<Rightarrow> UseVariant v
         | _ \<Rightarrow>
           (let literals = map extractLiteral nonNull;
                allLiterals = list_all (\<lambda>v. v \<noteq> JUndefined) literals
            in
            if allLiterals \<and> length literals > 0 \<and> length literals \<le> 5 then UseSegmented literals
            else if allLiterals \<and> length literals > 5 then UseSelect literals
            else
              (let primitiveTypes =
                     concat (map (\<lambda>variant. case schemaType variant of
                                               None \<Rightarrow> []
                                             | Some t \<Rightarrow> if t = [] then [] else [t]) nonNull);
                   normalizedTypes =
                     remdups (map (\<lambda>v. if v = ''integer'' then ''number'' else v) primitiveTypes)
               in
               if list_all (\<lambda>v. v \<in> set [''string'', ''number'', ''boolean'']) normalizedTypes then
                 (let hasString = ''string'' \<in> set normalizedTypes;
                      hasNumber = ''number'' \<in> set normalizedTypes;
                      hasBoolean = ''boolean'' \<in> set normalizedTypes
                  in
                  if hasBoolean \<and> length normalizedTypes = 1 then UseBoolean
                  else if hasString \<or> hasNumber
                    then UseText (if hasNumber \<and> \<not> hasString then ''number'' else ''text'')
                  else FallThrough)
               else FallThrough))))"

section \<open>Objects: ordering and grouping of properties\<close>

text \<open>
  \<open>Array.prototype.toSorted(compare)\<close> is the platform's stable sort. For a
  consistent comparator its result is the one stable sorted arrangement of the list,
  which insertion from the right computes.
\<close>

fun insertSorted :: "('a \<Rightarrow> 'a \<Rightarrow> int) \<Rightarrow> 'a \<Rightarrow> 'a list \<Rightarrow> 'a list" where
  "insertSorted cmp x [] = [x]"
| "insertSorted cmp x (y # ys) =
     (if cmp x y \<le> 0 then x # y # ys else y # insertSorted cmp x ys)"

definition toSorted :: "('a \<Rightarrow> 'a \<Rightarrow> int) \<Rightarrow> 'a list \<Rightarrow> 'a list" where
  "toSorted cmp xs = foldr (insertSorted cmp) xs []"

type_synonym objectEntry = "string \<times> jsonSchema"

text \<open>\<open>hintForPath([...path, key], hints)?.order ?? 0\<close>.\<close>

definition entryOrder :: "path \<Rightarrow> configUiHints \<Rightarrow> string \<Rightarrow> int" where
  "entryOrder path hints key =
     (case hintForPath (path @ [SStr key]) hints of
        None \<Rightarrow> 0
      | Some h \<Rightarrow> (case h_order h of Some n \<Rightarrow> n | None \<Rightarrow> 0))"

text \<open>
  The comparator of \<open>renderObject\<close>. \<open>localeCompare\<close> is the platform's string
  collation, taken as the parameter \<open>lc\<close>: negative, zero or positive.
\<close>

definition compareEntries ::
  "(string \<Rightarrow> string \<Rightarrow> int) \<Rightarrow> path \<Rightarrow> configUiHints \<Rightarrow> objectEntry \<Rightarrow> objectEntry \<Rightarrow> int" where
  "compareEntries lc path hints a b =
     (let orderA = entryOrder path hints (fst a);
          orderB = entryOrder path hints (fst b)
      in if orderA \<noteq> orderB then orderA - orderB else lc (fst a) (fst b))"

definition sortedEntries ::
  "(string \<Rightarrow> string \<Rightarrow> int) \<Rightarrow> path \<Rightarrow> configUiHints \<Rightarrow> jsonSchema \<Rightarrow> objectEntry list" where
  "sortedEntries lc path hints schema =
     toSorted (compareEntries lc path hints)
       (case s_properties schema of Some props \<Rightarrow> props | None \<Rightarrow> [])"

record fieldGroup =
  fg_label :: string
  fg_advanced :: bool
  fg_entries :: "objectEntry list"

definition groupLabelOf :: "path \<Rightarrow> configUiHints \<Rightarrow> string \<Rightarrow> string" where
  "groupLabelOf path hints propKey =
     (let propHint = hintForPath (path @ [SStr propKey]) hints;
          rawGroup = (case propHint of
                        None \<Rightarrow> None
                      | Some h \<Rightarrow> (case h_group h of None \<Rightarrow> None | Some g \<Rightarrow> Some (trim g)))
      in
      if truthyStr rawGroup then (case rawGroup of Some g \<Rightarrow> g | None \<Rightarrow> [])
      else if (case propHint of None \<Rightarrow> False | Some h \<Rightarrow> h_advanced h = Some True)
        then ''Advanced''
      else ''General'')"

definition groupAdvancedOf :: "path \<Rightarrow> configUiHints \<Rightarrow> string \<Rightarrow> bool" where
  "groupAdvancedOf path hints propKey =
     ((case hintForPath (path @ [SStr propKey]) hints of
         None \<Rightarrow> False
       | Some h \<Rightarrow> h_advanced h = Some True)
      \<or> toLowerCase (groupLabelOf path hints propKey) = ''advanced'')"

definition groupKeyOf :: "path \<Rightarrow> configUiHints \<Rightarrow> string \<Rightarrow> string" where
  "groupKeyOf path hints propKey =
     (if groupAdvancedOf path hints propKey then ''1'' else ''0'') @ '':''
       @ toLowerCase (groupLabelOf path hints propKey)"

text \<open>
  The grouping loop of \<open>renderObjectFields\<close>: \<open>groups\<close> is the array of groups and
  \<open>indexByKey\<close> the \<open>Map\<close> from group keys to their indices.
\<close>

fun groupLoop ::
  "path \<Rightarrow> configUiHints \<Rightarrow> objectEntry list \<Rightarrow> fieldGroup list \<Rightarrow> (string \<times> nat) list
     \<Rightarrow> fieldGroup list" where
  "groupLoop path hints [] groups indexByKey = groups"
| "groupLoop path hints (entry # rest) groups indexByKey =
     (case map_of indexByKey (groupKeyOf path hints (fst entry)) of
        Some existingIndex \<Rightarrow>
          groupLoop path hints rest
            (if existingIndex < length groups
             then groups [existingIndex :=
                    (groups ! existingIndex)
                      \<lparr> fg_entries := fg_entries (groups ! existingIndex) @ [entry] \<rparr>]
             else groups)
            indexByKey
      | None \<Rightarrow>
          groupLoop path hints rest
            (groups @ [\<lparr> fg_label = groupLabelOf path hints (fst entry),
                          fg_advanced = groupAdvancedOf path hints (fst entry),
                          fg_entries = [entry] \<rparr>])
            ((groupKeyOf path hints (fst entry), length groups) # indexByKey))"

definition groupEntries :: "path \<Rightarrow> configUiHints \<Rightarrow> objectEntry list \<Rightarrow> fieldGroup list" where
  "groupEntries path hints entries = groupLoop path hints entries [] []"

definition useGroupedPresentation :: "fieldGroup list \<Rightarrow> bool" where
  "useGroupedPresentation groups =
     (length groups > 1 \<or> list_ex (\<lambda>g. fg_advanced g \<or> fg_label g \<noteq> ''General'') groups)"

text \<open>\<open>groups[0]?.entries ?? entries\<close>.\<close>

definition fallbackEntries :: "fieldGroup list \<Rightarrow> objectEntry list \<Rightarrow> objectEntry list" where
  "fallbackEntries groups entries = (case groups of g # gs \<Rightarrow> fg_entries g | [] \<Rightarrow> entries)"

section \<open>The recursive renderer (\<open>config-form.node.ts\<close>)\<close>

record fieldsParams =
  fp_entries :: "objectEntry list"
  fp_obj :: "(string \<times> jsval) list"
  fp_rootValue :: jsval
  fp_path :: path
  fp_hints :: configUiHints
  fp_unsupported :: "string set"
  fp_disabled :: bool

record mapParams =
  mp_schema :: jsonSchema
  mp_value :: "(string \<times> jsval) list"
  mp_rootValue :: jsval
  mp_path :: path
  mp_hints :: configUiHints
  mp_unsupported :: "string set"
  mp_disabled :: bool
  mp_reservedKeys :: "string set"

text \<open>\<open>obj[propKey]\<close>.\<close>

definition objGet :: "(string \<times> jsval) list \<Rightarrow> string \<Rightarrow> jsval" where
  "objGet obj key = (case map_of obj key of Some v \<Rightarrow> v | None \<Rightarrow> JUndefined)"

text \<open>The parameters \<open>renderObjectFields\<close> passes to \<open>renderNode\<close> for one entry.\<close>

definition entryParams :: "fieldsParams \<Rightarrow> objectEntry \<Rightarrow> renderParams" where
  "entryParams fp entry =
     \<lparr> p_schema = snd entry,
       p_value = objGet (fp_obj fp) (fst entry),
       p_rootValue = fp_rootValue fp,
       p_path = fp_path fp @ [SStr (fst entry)],
       p_hints = fp_hints fp,
       p_unsupported = fp_unsupported fp,
       p_disabled = fp_disabled fp,
       p_showLabel = None \<rparr>"

text \<open>\<open>value ?? schema.default\<close> when it is a plain object, else \<open>{}\<close>.\<close>

definition objectValue :: "renderParams \<Rightarrow> (string \<times> jsval) list" where
  "objectValue params =
     (case nullish (p_value params) (s_default (p_schema params)) of
        JObj kvs \<Rightarrow> kvs
      | _ \<Rightarrow> [])"

definition objectFieldsParams :: "(string \<Rightarrow> string \<Rightarrow> int) \<Rightarrow> renderParams \<Rightarrow> fieldsParams" where
  "objectFieldsParams lc params =
     \<lparr> fp_entries = sortedEntries lc (p_path params) (p_hints params) (p_schema params),
       fp_obj = objectValue params,
       fp_rootValue = p_rootValue params,
       fp_path = p_path params,
       fp_hints = p_hints params,
       fp_unsupported = p_unsupported params,
       fp_disabled = p_disabled params \<rparr>"

definition objectMapParams :: "renderParams \<Rightarrow> jsonSchema \<Rightarrow> mapParams" where
  "objectMapParams params additional =
     \<lparr> mp_schema = additional,
       mp_value = objectValue params,
       mp_rootValue = p_rootValue params,
       mp_path = p_path params,
       mp_hints = p_hints params,
       mp_unsupported = p_unsupported params,
       mp_disabled = p_disabled params,
       mp_reservedKeys =
         set (map fst (case s_properties (p_schema params) of Some props \<Rightarrow> props | None \<Rightarrow> [])) \<rparr>"

text \<open>\<open>Array.isArray(schema.items) ? schema.items[0] : schema.items\<close>.\<close>

definition itemsSchemaOf :: "jsonSchema \<Rightarrow> jsonSchema option" where
  "itemsSchemaOf schema =
     (case s_items schema of
        ItemsAbsent \<Rightarrow> None
      | ItemsOne s \<Rightarrow> Some s
      | ItemsMany ss \<Rightarrow> (case ss of s # rest \<Rightarrow> Some s | [] \<Rightarrow> None))"

definition arrayValue :: "renderParams \<Rightarrow> jsval list" where
  "arrayValue params =
     (case p_value params of
        JArr xs \<Rightarrow> xs
      | _ \<Rightarrow> (case s_default (p_schema params) of JArr ds \<Rightarrow> ds | _ \<Rightarrow> []))"

text \<open>\<open>next = [...arr]; next.splice(idx, 1)\<close>.\<close>

definition spliceOne :: "nat \<Rightarrow> 'a list \<Rightarrow> 'a list" where
  "spliceOne idx arr = take idx arr @ drop (Suc idx) arr"

definition arrayHeaderOf :: "renderParams \<Rightarrow> jsonSchema \<Rightarrow> arrayHeader" where
  "arrayHeaderOf params itemsSchema =
     (let label = fieldLabel params;
          arr = arrayValue params;
          singularLabel = singularizeLabel label
      in
      \<lparr> ah_label = (if showLabelOf params then Some label else None),
        ah_count = natToString (length arr) @ '' item'' @ (if length arr \<noteq> 1 then ''s'' else []),
        ah_add = \<lparr> b_text = ''Add '' @ humanize singularLabel,
                   b_disabled = p_disabled params,
                   b_click = (p_path params, JArr (arr @ [defaultValue (Some itemsSchema)])) \<rparr>,
        ah_assist = fieldAssist params,
        ah_meta = ''Each '' @ toLowerCase singularLabel @ '' expects ''
                    @ inferArrayItemTypeLabel itemsSchema @ ''.'',
        ah_empty = (if length arr = 0
                    then Some (''No '' @ toLowerCase label @ '' configured yet.'') else None) \<rparr>)"

definition itemParams :: "renderParams \<Rightarrow> jsonSchema \<Rightarrow> nat \<Rightarrow> jsval \<Rightarrow> renderParams" where
  "itemParams params itemsSchema idx item =
     \<lparr> p_schema = itemsSchema,
       p_value = item,
       p_rootValue = p_rootValue params,
       p_path = p_path params @ [SNum idx],
       p_hints = p_hints params,
       p_unsupported = p_unsupported params,
       p_disabled = p_disabled params,
       p_showLabel = Some False \<rparr>"

definition removeButton :: "renderParams \<Rightarrow> nat \<Rightarrow> button" where
  "removeButton params idx =
     \<lparr> b_text = ''Remove item'',
       b_disabled = p_disabled params,
       b_click = (p_path params, JArr (spliceOne idx (arrayValue params))) \<rparr>"

definition META_KEYS :: "string set" where
  "META_KEYS = {''title'', ''description'', ''default'', ''nullable''}"

text \<open>The keys of a schema object, in the order of the type declaration.\<close>

definition schemaKeys :: "jsonSchema \<Rightarrow> string list" where
  "schemaKeys schema =
     (if s_type schema \<noteq> TypeAbsent then [''type''] else [])
     @ (if s_title schema \<noteq> None then [''title''] else [])
     @ (if s_description schema \<noteq> None then [''description''] else [])
     @ (if s_properties schema \<noteq> None then [''properties''] else [])
     @ (if s_items schema \<noteq> ItemsAbsent then [''items''] else [])
     @ (if s_additionalProperties schema \<noteq> AdditionalAbsent then [''additionalProperties''] else [])
     @ (if s_enum schema \<noteq> None then [''enum''] else [])
     @ (if s_const schema \<noteq> JUndefined then [''const''] else [])
     @ (if s_default schema \<noteq> JUndefined then [''default''] else [])
     @ (if s_anyOf schema \<noteq> None then [''anyOf''] else [])
     @ (if s_oneOf schema \<noteq> None then [''oneOf''] else [])
     @ (if s_allOf schema \<noteq> None then [''allOf''] else [])
     @ (if s_nullable schema \<noteq> None then [''nullable''] else [])
     @ s_otherKeys schema"

definition isAnySchema :: "jsonSchema \<Rightarrow> bool" where
  "isAnySchema schema = (length (filter (\<lambda>key. key \<notin> META_KEYS) (schemaKeys schema)) = 0)"

definition mapEntries :: "mapParams \<Rightarrow> (string \<times> jsval) list" where
  "mapEntries mp = filter (\<lambda>kv. fst kv \<notin> mp_reservedKeys mp) (mp_value mp)"

definition mapLabel :: "mapParams \<Rightarrow> string" where
  "mapLabel mp =
     (case (case hintForPath (mp_path mp) (mp_hints mp) of None \<Rightarrow> None | Some h \<Rightarrow> h_label h) of
        Some l \<Rightarrow> l
      | None \<Rightarrow> ''Custom entries'')"

definition mapHeaderOf :: "mapParams \<Rightarrow> mapHeader" where
  "mapHeaderOf mp =
     (let hint = hintForPath (mp_path mp) (mp_hints mp);
          label = mapLabel mp;
          guidance = inferMapFieldGuidance (mp_path mp) label
      in
      \<lparr> mh_label = label,
        mh_addLabel = g_addLabel guidance,
        mh_disabled = mp_disabled mp,
        mh_assist = renderFieldAssist (mp_path mp) (mp_hints mp)
                      (case hint of None \<Rightarrow> None | Some h \<Rightarrow> h_help h)
                      (mp_rootValue mp) (mp_disabled mp),
        mh_meta = (case g_keyHelp guidance of
                     Some t \<Rightarrow> if t \<noteq> [] then t
                               else ''Value type: '' @ inferArrayItemTypeLabel (mp_schema mp) @ ''.''
                   | None \<Rightarrow> ''Value type: '' @ inferArrayItemTypeLabel (mp_schema mp) @ ''.''),
        mh_empty = (if length (mapEntries mp) = 0
                    then Some (''No '' @ toLowerCase label @ '' configured yet.'') else None) \<rparr>)"

definition mapEntryParams :: "mapParams \<Rightarrow> string \<Rightarrow> jsval \<Rightarrow> renderParams" where
  "mapEntryParams mp key entryValue =
     \<lparr> p_schema = mp_schema mp,
       p_value = entryValue,
       p_rootValue = mp_rootValue mp,
       p_path = mp_path mp @ [SStr key],
       p_hints = mp_hints mp,
       p_unsupported = mp_unsupported mp,
       p_disabled = mp_disabled mp,
       p_showLabel = Some False \<rparr>"

text \<open>\<open>next = { ...value }; delete next[key]\<close>.\<close>

definition mapRemoveButton :: "mapParams \<Rightarrow> string \<Rightarrow> button" where
  "mapRemoveButton mp key =
     \<lparr> b_text = ''Remove entry'',
       b_disabled = mp_disabled mp,
       b_click = (mp_path mp, JObj (filter (\<lambda>kv. fst kv \<noteq> key) (mp_value mp))) \<rparr>"

text \<open>The text \<open>${type}\<close> of the fallback message; lit prints \<open>undefined\<close> as nothing.\<close>

definition typeText :: "string option \<Rightarrow> string" where
  "typeText type = (case type of Some t \<Rightarrow> t | None \<Rightarrow> [])"

subsection \<open>A measure of schemas for the recursion\<close>

fun schemaWeight :: "jsonSchema \<Rightarrow> nat" where
  "schemaWeight (JsonSchema ty ti de props its addl en co dflt anyof oneof allof nul oth) =
     1
     + (case props of None \<Rightarrow> 0 | Some ps \<Rightarrow> sum_list (map (\<lambda>kv. schemaWeight (snd kv)) ps))
     + (case its of
          ItemsAbsent \<Rightarrow> 0
        | ItemsOne s \<Rightarrow> schemaWeight s
        | ItemsMany ss \<Rightarrow> sum_list (map schemaWeight ss))
     + (case addl of AdditionalSchema s \<Rightarrow> schemaWeight s | _ \<Rightarrow> 0)
     + (case anyof of None \<Rightarrow> 0 | Some vs \<Rightarrow> 1 + sum_list (map schemaWeight vs))
     + (case oneof of None \<Rightarrow> 0 | Some vs \<Rightarrow> 1 + sum_list (map schemaWeight vs))"

lemma sum_list_insertSorted:
  "sum_list (map f (insertSorted cmp x ys)) = (f x :: nat) + sum_list (map f ys)"
  by (induction ys) auto

lemma sum_list_toSorted: "sum_list (map f (toSorted cmp xs)) = sum_list (map (f :: 'a \<Rightarrow> nat) xs)"
  unfolding toSorted_def by (induction xs) (auto simp: sum_list_insertSorted)

lemma set_insertSorted: "set (insertSorted cmp x ys) = insert x (set ys)"
  by (induction ys) auto

lemma set_toSorted: "set (toSorted cmp xs) = set xs"
  unfolding toSorted_def by (induction xs) (auto simp: set_insertSorted)

lemma schemaWeight_member: "x \<in> set xs \<Longrightarrow> schemaWeight x \<le> sum_list (map schemaWeight xs)"
  by (induction xs) auto

lemma schemaWeight_entry:
  "e \<in> set es \<Longrightarrow> schemaWeight (snd e) \<le> sum_list (map (\<lambda>kv. schemaWeight (snd kv)) es)"
  by (induction es) auto

lemma schemaWeight_variant:
  "unionBlock schema = UseVariant v \<Longrightarrow> schemaWeight v < schemaWeight schema"
proof -
  assume u: "unionBlock schema = UseVariant v"
  then have nn: "nonNullVariants schema = [v]"
    by (auto simp: unionBlock_def Let_def split: if_splits list.splits)
  have "v \<in> set (nonNullVariants schema)" by (simp add: nn)
  then have "v \<in> set (unionVariants schema)"
    by (simp add: nonNullVariants_def)
  then have le: "schemaWeight v \<le> sum_list (map schemaWeight (unionVariants schema))"
    by (rule schemaWeight_member)
  show ?thesis
    using le by (cases schema) (auto simp: unionVariants_def split: option.splits)
qed

lemma schemaWeight_asBoolean:
  "unionBlock schema = UseBoolean \<Longrightarrow> schemaWeight (asBoolean schema) < schemaWeight schema"
proof -
  assume "unionBlock schema = UseBoolean"
  then have "s_anyOf schema \<noteq> None \<or> s_oneOf schema \<noteq> None"
    by (auto simp: unionBlock_def split: if_splits)
  then show ?thesis
    by (cases schema) (auto simp: asBoolean_def)
qed

lemma schemaWeight_sorted:
  "sum_list (map (\<lambda>kv. schemaWeight (snd kv)) (sortedEntries lc path hints schema))
     < schemaWeight schema"
  by (cases schema) (auto simp: sortedEntries_def sum_list_toSorted split: option.splits)

lemma schemaWeight_additional:
  "s_additionalProperties schema = AdditionalSchema a \<Longrightarrow> schemaWeight a < schemaWeight schema"
  by (cases schema) auto

lemma schemaWeight_items:
  "itemsSchemaOf schema = Some s \<Longrightarrow> schemaWeight s < schemaWeight schema"
  by (cases schema) (auto simp: itemsSchemaOf_def split: itemsField.splits list.splits)

lemma groupLoop_entries:
  "g \<in> set (groupLoop path hints entries groups indexByKey) \<Longrightarrow> e \<in> set (fg_entries g) \<Longrightarrow>
   e \<in> set entries \<or> (\<exists>g' \<in> set groups. e \<in> set (fg_entries g'))"
proof (induction entries arbitrary: groups indexByKey)
  case Nil
  then show ?case by auto
next
  case (Cons entry rest)
  show ?case
  proof (cases "map_of indexByKey (groupKeyOf path hints (fst entry))")
    case None
    with Cons.prems Cons.IH [of "groups @ [\<lparr> fg_label = groupLabelOf path hints (fst entry),
                          fg_advanced = groupAdvancedOf path hints (fst entry),
                          fg_entries = [entry] \<rparr>]"
        "(groupKeyOf path hints (fst entry), length groups) # indexByKey"]
    show ?thesis by auto
  next
    case (Some i)
    show ?thesis
    proof (cases "i < length groups")
      case False
      with Some Cons.prems Cons.IH [of groups indexByKey] show ?thesis by auto
    next
      case True
      let ?groups = "groups [i := (groups ! i) \<lparr> fg_entries := fg_entries (groups ! i) @ [entry] \<rparr>]"
      from Some True Cons.prems(1) have "g \<in> set (groupLoop path hints rest ?groups indexByKey)"
        by simp
      from Cons.IH [OF this Cons.prems(2)]
      consider "e \<in> set rest" | g' where "g' \<in> set ?groups" "e \<in> set (fg_entries g')"
        by blast
      then show ?thesis
      proof cases
        case 1
        then show ?thesis by simp
      next
        case 2
        from 2(1) have "g' = (groups ! i) \<lparr> fg_entries := fg_entries (groups ! i) @ [entry] \<rparr>
            \<or> g' \<in> set groups"
          using set_update_subset_insert [of groups i] by auto
        with 2(2) True show ?thesis
          by (auto intro: nth_mem)
      qed
    qed
  qed
qed

lemma groupEntries_subset:
  "g \<in> set (groupEntries path hints entries) \<Longrightarrow> e \<in> set (fg_entries g) \<Longrightarrow> e \<in> set entries"
  unfolding groupEntries_def using groupLoop_entries by fastforce

lemma fallbackEntries_subset:
  assumes "e \<in> set (fallbackEntries (groupEntries path hints entries) entries)"
  shows "e \<in> set entries"
proof (cases "groupEntries path hints entries")
  case Nil
  with assms show ?thesis by (simp add: fallbackEntries_def)
next
  case (Cons g gs)
  with assms have "e \<in> set (fg_entries g)" by (simp add: fallbackEntries_def)
  moreover from Cons have "g \<in> set (groupEntries path hints entries)" by simp
  ultimately show ?thesis by (rule groupEntries_subset [rotated])
qed

subsection \<open>\<open>renderNode\<close> and the renderers it calls\<close>

text \<open>
  The five functions call each other as in the source. \<open>lc\<close> is the platform's
  \<open>localeCompare\<close>, which \<open>renderObject\<close> sorts with.
\<close>

function renderNode :: "(string \<Rightarrow> string \<Rightarrow> int) \<Rightarrow> renderParams \<Rightarrow> view"
  and renderObject :: "(string \<Rightarrow> string \<Rightarrow> int) \<Rightarrow> renderParams \<Rightarrow> view"
  and renderObjectFields :: "(string \<Rightarrow> string \<Rightarrow> int) \<Rightarrow> fieldsParams \<Rightarrow> fields"
  and renderArray :: "(string \<Rightarrow> string \<Rightarrow> int) \<Rightarrow> renderParams \<Rightarrow> view"
  and renderMapField :: "(string \<Rightarrow> string \<Rightarrow> int) \<Rightarrow> mapParams \<Rightarrow> view"
where
  "renderNode lc params =
     (if pathKey (p_path params) \<in> p_unsupported params
      then VError (fieldLabel params) ''Unsupported schema node. Use Raw mode.''
      else
        (case unionBlock (p_schema params) of
           UseVariant v \<Rightarrow> renderNode lc (params \<lparr> p_schema := v \<rparr>)
         | UseSegmented literals \<Rightarrow> segmentedField params literals
         | UseSelect literals \<Rightarrow>
             renderSelect
               (params \<lparr> p_value := nullish (p_value params) (s_default (p_schema params)) \<rparr>)
               literals
         | UseBoolean \<Rightarrow> renderNode lc (params \<lparr> p_schema := asBoolean (p_schema params) \<rparr>)
         | UseText inputType \<Rightarrow> renderTextInput params inputType
         | FallThrough \<Rightarrow>
             (case s_enum (p_schema params) of
                Some options \<Rightarrow>
                  if length options \<le> 5 then segmentedField params options
                  else renderSelect
                         (params \<lparr> p_value := nullish (p_value params) (s_default (p_schema params)) \<rparr>)
                         options
              | None \<Rightarrow>
                  if schemaType (p_schema params) = Some ''object'' then renderObject lc params
                  else if schemaType (p_schema params) = Some ''array'' then renderArray lc params
                  else if schemaType (p_schema params) = Some ''boolean'' then booleanField params
                  else if schemaType (p_schema params) = Some ''number''
                          \<or> schemaType (p_schema params) = Some ''integer''
                    then renderNumberInput params
                  else if schemaType (p_schema params) = Some ''string''
                    then renderTextInput params ''text''
                  else VError (fieldLabel params)
                         (''Unsupported type: '' @ typeText (schemaType (p_schema params))
                            @ ''. Use Raw mode.''))))"
| "renderObject lc params =
     (if length (p_path params) = 1
      then VObjectTop
             (renderObjectFields lc (objectFieldsParams lc params))
             (case s_additionalProperties (p_schema params) of
                AdditionalSchema additional \<Rightarrow>
                  Some (renderMapField lc (objectMapParams params additional))
              | _ \<Rightarrow> None)
      else VObjectDetails
             (length (p_path params) \<le> 2
                \<and> (case hintForPath (p_path params) (p_hints params) of
                     None \<Rightarrow> True
                   | Some h \<Rightarrow> h_advanced h \<noteq> Some True))
             (fieldLabel params)
             (if truthyStr (nodeHelp (hintForPath (p_path params) (p_hints params)) (p_schema params))
              then nodeHelp (hintForPath (p_path params) (p_hints params)) (p_schema params)
              else None)
             (renderObjectFields lc (objectFieldsParams lc params))
             (case s_additionalProperties (p_schema params) of
                AdditionalSchema additional \<Rightarrow>
                  Some (renderMapField lc (objectMapParams params additional))
              | _ \<Rightarrow> None))"
| "renderObjectFields lc fp =
     (if \<not> useGroupedPresentation (groupEntries (fp_path fp) (fp_hints fp) (fp_entries fp))
      then Flat (map (\<lambda>entry. renderNode lc (entryParams fp entry))
                   (fallbackEntries (groupEntries (fp_path fp) (fp_hints fp) (fp_entries fp))
                      (fp_entries fp)))
      else Grouped
             (map (\<lambda>group.
                     if fg_advanced group
                     then GroupAdvanced (fg_label group)
                            (map (\<lambda>entry. renderNode lc (entryParams fp entry)) (fg_entries group))
                     else GroupSection
                            (if fg_label group \<noteq> ''General'' then Some (fg_label group) else None)
                            (map (\<lambda>entry. renderNode lc (entryParams fp entry)) (fg_entries group)))
                (groupEntries (fp_path fp) (fp_hints fp) (fp_entries fp))))"
| "renderArray lc params =
     (case itemsSchemaOf (p_schema params) of
        None \<Rightarrow> VError (fieldLabel params) ''Unsupported array schema. Use Raw mode.''
      | Some itemsSchema \<Rightarrow>
          VArray (arrayHeaderOf params itemsSchema)
            (map (\<lambda>(idx, item).
                    ArrayItem
                      (''#'' @ natToString (idx + 1) @ '' ''
                         @ toLowerCase (singularizeLabel (fieldLabel params)))
                      (removeButton params idx)
                      (renderNode lc (itemParams params itemsSchema idx item)))
               (indexedFrom 0 (arrayValue params))))"
| "renderMapField lc mp =
     VMap (mapHeaderOf mp)
       (map (\<lambda>(key, entryValue).
               MapItem key
                 (g_keyPlaceholder (inferMapFieldGuidance (mp_path mp) (mapLabel mp)))
                 (if isAnySchema (mp_schema mp) then JsonArea entryValue
                  else Editor (renderNode lc (mapEntryParams mp key entryValue)))
                 (mapRemoveButton mp key))
          (mapEntries mp))"
  by pat_completeness auto
termination
proof (relation "measure (\<lambda>x. case x of
          Inl (Inl (lc, params)) \<Rightarrow> 3 * schemaWeight (p_schema params) + 2
        | Inl (Inr (lc, params)) \<Rightarrow> 3 * schemaWeight (p_schema params) + 1
        | Inr (Inl (lc, fp)) \<Rightarrow>
            3 * sum_list (map (\<lambda>kv. schemaWeight (snd kv)) (fp_entries fp)) + 3
        | Inr (Inr (Inl (lc, params))) \<Rightarrow> 3 * schemaWeight (p_schema params) + 1
        | Inr (Inr (Inr (lc, mp))) \<Rightarrow> 3 * schemaWeight (mp_schema mp) + 3)",
      goal_cases)
  case 1
  then show ?case by simp
next
  case (2 lc params v)
  then show ?case using schemaWeight_variant [of "p_schema params" v] by simp
next
  case (3 lc params)
  then show ?case using schemaWeight_asBoolean [of "p_schema params"] by simp
next
  case (4 lc params)
  then show ?case by simp
next
  case (5 lc params)
  then show ?case by simp
next
  case (6 lc params)
  then show ?case
    using schemaWeight_sorted [of lc "p_path params" "p_hints params" "p_schema params"]
    by (simp add: objectFieldsParams_def)
next
  case (7 lc params additional)
  then show ?case
    using schemaWeight_additional [of "p_schema params" additional]
    by (simp add: objectMapParams_def)
next
  case (8 lc params)
  then show ?case
    using schemaWeight_sorted [of lc "p_path params" "p_hints params" "p_schema params"]
    by (simp add: objectFieldsParams_def)
next
  case (9 lc params additional)
  then show ?case
    using schemaWeight_additional [of "p_schema params" additional]
    by (simp add: objectMapParams_def)
next
  case (10 lc fp entry)
  then have "entry \<in> set (fp_entries fp)" by (auto dest: fallbackEntries_subset)
  then show ?case
    using schemaWeight_entry [of entry "fp_entries fp"] by (simp add: entryParams_def)
next
  case (11 lc fp group entry)
  then have "entry \<in> set (fp_entries fp)" by (auto dest: groupEntries_subset)
  then show ?case
    using schemaWeight_entry [of entry "fp_entries fp"] by (simp add: entryParams_def)
next
  case (12 lc fp group entry)
  then have "entry \<in> set (fp_entries fp)" by (auto dest: groupEntries_subset)
  then show ?case
    using schemaWeight_entry [of entry "fp_entries fp"] by (simp add: entryParams_def)
next
  case (13 lc params itemsSchema)
  then show ?case
    using schemaWeight_items [of "p_schema params" itemsSchema] by (simp add: itemParams_def)
next
  case (14 lc mp)
  then show ?case by (simp add: mapEntryParams_def)
qed

declare renderNode.simps [simp del] renderObject.simps [simp del]
  renderObjectFields.simps [simp del] renderArray.simps [simp del] renderMapField.simps [simp del]

section \<open>Notions the properties are stated with\<close>

text \<open>
  A wildcard entry of the hint table matches a dotted key: its own key contains \<open>*\<close>,
  it has as many dot-separated segments as the key, and each of its segments other than
  \<open>*\<close> is the key's segment at the same index.
\<close>

definition wildcardEntryMatches :: "string \<Rightarrow> string \<Rightarrow> bool" where
  "wildcardEntryMatches hintKey key =
     (CHR ''*'' \<in> set hintKey
      \<and> length (splitOn CHR ''.'' hintKey) = length (splitOn CHR ''.'' key)
      \<and> list_all (\<lambda>(hintSegment, segment). hintSegment \<noteq> ''*'' \<longrightarrow> hintSegment = segment)
            (zip (splitOn CHR ''.'' hintKey) (splitOn CHR ''.'' key)))"

text \<open>A path with its numeric (array index) segments removed.\<close>

definition withoutIndices :: "path \<Rightarrow> path" where
  "withoutIndices path = filter (\<lambda>segment. case segment of SStr s \<Rightarrow> True | SNum n \<Rightarrow> False) path"

text \<open>
  The conditions under which an impact of a hint is reported. The source check is the
  check \<open>impact.when\<close> names (by default \<open>equals\<close> when \<open>whenValue\<close> is set and
  \<open>truthy\<close> otherwise) on the value at the path's string segments; the target check is
  \<open>impact.targetWhen\<close> (same defaults, on \<open>targetValue\<close>) on the value at the resolved
  target path.
\<close>

definition sourceCheckHolds :: "path \<Rightarrow> jsval \<Rightarrow> configUiHintImpact \<Rightarrow> bool" where
  "sourceCheckHolds path rootValue impact =
     evaluateCheck (getValueAtPath rootValue (stringSegments path))
       (sourceCheckForImpact impact) (i_whenValue impact)"

definition hasTargetPath :: "configUiHintImpact \<Rightarrow> bool" where
  "hasTargetPath impact = truthyStr (i_targetPath impact)"

definition targetCheckHolds :: "path \<Rightarrow> jsval \<Rightarrow> configUiHintImpact \<Rightarrow> bool" where
  "targetCheckHolds path rootValue impact =
     (case i_targetPath impact of
        None \<Rightarrow> False
      | Some tp \<Rightarrow>
          evaluateCheck (getValueAtPath rootValue (resolveWildcardPath tp path))
            (targetCheckForImpact impact) (i_targetValue impact))"

definition impactActive :: "path \<Rightarrow> jsval \<Rightarrow> configUiHintImpact \<Rightarrow> bool" where
  "impactActive path rootValue impact =
     (sourceCheckHolds path rootValue impact
      \<and> (if relationForImpact impact = ''risk'' then True
         else if relationForImpact impact = ''conflicts''
           then hasTargetPath impact \<and> targetCheckHolds path rootValue impact
         else \<not> hasTargetPath impact \<or> \<not> targetCheckHolds path rootValue impact))"

text \<open>The target path of the impact still has a \<open>*\<close> segment after the substitution.\<close>

definition wildcardLeft :: "path \<Rightarrow> configUiHintImpact \<Rightarrow> bool" where
  "wildcardLeft path impact =
     (case i_targetPath impact of
        None \<Rightarrow> False
      | Some tp \<Rightarrow> tp \<noteq> [] \<and> ''*'' \<in> set (resolveWildcardPath tp path))"

text \<open>What is reported for an impact of the hint.\<close>

definition reportedImpact :: "path \<Rightarrow> configUiHintImpact \<Rightarrow> resolvedConfigImpact" where
  "reportedImpact path impact =
     resolvedEntry (relationForImpact impact) impact (targetPathSegments impact path)"

text \<open>Inputs the properties are evaluated on.\<close>

definition dmPolicyPath :: path where
  "dmPolicyPath = [SStr ''channels'', SStr ''discord'', SStr ''dm'', SStr ''policy'']"

definition dmPolicyHints :: configUiHints where
  "dmPolicyHints =
     [(''channels.*.dm.policy'',
       noHint \<lparr> h_impacts := Some [openDmImpact ''channels.*.dm.allowFrom''] \<rparr>)]"

definition dmPolicyRoot :: jsval where
  "dmPolicyRoot =
     JObj [(''channels'',
       JObj [(''discord'',
         JObj [(''dm'', JObj [(''policy'', JStr ''open''), (''allowFrom'', JArr [JStr ''+1''])])])])]"

definition danglingRisk :: configUiHintImpact where
  "danglingRisk =
     noImpact \<lparr> i_relation := Some ''risk'', i_targetPath := Some ''peers.*'',
       i_message := ''Exposed to peers.'' \<rparr>"

definition danglingHints :: configUiHints where
  "danglingHints = [(''open'', noHint \<lparr> h_impacts := Some [danglingRisk] \<rparr>)]"

definition danglingRoot :: jsval where
  "danglingRoot = JObj [(''open'', JBool True)]"

text \<open>
  A comparator to evaluate the renderer with: the order of the strings' characters.
  (\<open>localeCompare\<close> itself depends on the platform's locale.)
\<close>

definition byteCompare :: "string \<Rightarrow> string \<Rightarrow> int" where
  "byteCompare a b = (if a < b then - 1 else if a = b then 0 else 1)"

text \<open>Schemas and parameters to evaluate the renderer on.\<close>

definition emptySchema :: jsonSchema where
  "emptySchema =
     JsonSchema TypeAbsent None None None ItemsAbsent AdditionalAbsent None JUndefined JUndefined
       None None None None []"

definition typed :: "string \<Rightarrow> jsonSchema" where
  "typed t =
     JsonSchema (TypeOne t) None None None ItemsAbsent AdditionalAbsent None JUndefined JUndefined
       None None None None []"

definition constOf :: "jsval \<Rightarrow> jsonSchema" where
  "constOf v =
     JsonSchema TypeAbsent None None None ItemsAbsent AdditionalAbsent None v JUndefined
       None None None None []"

definition anyOfSchema :: "jsonSchema list \<Rightarrow> jsonSchema" where
  "anyOfSchema vs =
     JsonSchema TypeAbsent None None None ItemsAbsent AdditionalAbsent None JUndefined JUndefined
       (Some vs) None None None []"

definition enumOf :: "jsval list \<Rightarrow> jsonSchema" where
  "enumOf opts =
     JsonSchema (TypeOne ''string'') None None None ItemsAbsent AdditionalAbsent (Some opts)
       JUndefined JUndefined None None None None []"

definition objectOf :: "(string \<times> jsonSchema) list \<Rightarrow> jsonSchema" where
  "objectOf props =
     JsonSchema (TypeOne ''object'') None None (Some props) ItemsAbsent AdditionalAbsent None
       JUndefined JUndefined None None None None []"

definition arrayOf :: "jsonSchema \<Rightarrow> jsonSchema" where
  "arrayOf itemsSchema =
     JsonSchema (TypeOne ''array'') None None None (ItemsOne itemsSchema) AdditionalAbsent None
       JUndefined JUndefined None None None None []"

definition paramsFor :: "jsonSchema \<Rightarrow> jsval \<Rightarrow> path \<Rightarrow> configUiHints \<Rightarrow> renderParams" where
  "paramsFor schema v path hints =
     \<lparr> p_schema = schema, p_value = v, p_rootValue = JObj [], p_path = path, p_hints = hints,
       p_unsupported = {}, p_disabled = False, p_showLabel = None \<rparr>"

text \<open>
  The supported subset as the specification lists it: an object, array, string, number
  or integer, boolean, an enum, or an \<open>anyOf\<close>/\<open>oneOf\<close> whose non-null variants are all
  literals (a \<open>const\<close>, or an \<open>enum\<close> of one element).
\<close>

definition isLiteralVariant :: "jsonSchema \<Rightarrow> bool" where
  "isLiteralVariant v =
     (s_const v \<noteq> JUndefined
      \<or> (case s_enum v of Some [e] \<Rightarrow> e \<noteq> JUndefined | _ \<Rightarrow> False))"

definition hasUnion :: "jsonSchema \<Rightarrow> bool" where
  "hasUnion schema = (s_anyOf schema \<noteq> None \<or> s_oneOf schema \<noteq> None)"

definition inSupportedSubset :: "jsonSchema \<Rightarrow> bool" where
  "inSupportedSubset schema =
     (schemaType schema \<in> set [Some ''object'', Some ''array'', Some ''string'', Some ''number'',
                                Some ''integer'', Some ''boolean'']
      \<or> s_enum schema \<noteq> None
      \<or> (hasUnion schema \<and> list_all isLiteralVariant (nonNullVariants schema)))"

definition isErrorField :: "view \<Rightarrow> bool" where
  "isErrorField v = (case v of VError label text \<Rightarrow> True | _ \<Rightarrow> False)"

text \<open>The hint of the node marks it advanced.\<close>

definition hintAdvanced :: "renderParams \<Rightarrow> bool" where
  "hintAdvanced params =
     (case hintForPath (p_path params) (p_hints params) of
        None \<Rightarrow> False
      | Some h \<Rightarrow> h_advanced h = Some True)"

text \<open>
  An object with one number field: at the top level, nested once with and without an
  \<open>advanced\<close> hint, and nested twice.
\<close>

definition gatewayParams :: renderParams where
  "gatewayParams =
     paramsFor (objectOf [(''port'', typed ''number'')]) JUndefined [SStr ''gateway''] []"

definition authAdvancedParams :: renderParams where
  "authAdvancedParams =
     paramsFor (objectOf [(''port'', typed ''number'')]) JUndefined
       [SStr ''gateway'', SStr ''auth'']
       [(''gateway.auth'', noHint \<lparr> h_advanced := Some True \<rparr>)]"

definition authParams :: renderParams where
  "authParams =
     paramsFor (objectOf [(''port'', typed ''number'')]) (JObj [(''port'', JNum 7)])
       [SStr ''gateway'', SStr ''auth''] []"

definition deepParams :: renderParams where
  "deepParams =
     paramsFor (objectOf [(''port'', typed ''number'')]) (JObj [(''port'', JNum 7)])
       [SStr ''gateway'', SStr ''auth'', SStr ''deep''] []"

definition bindParams :: renderParams where
  "bindParams =
     paramsFor
       (anyOfSchema [constOf (JStr ''auto''), constOf (JStr ''lan''), constOf (JStr ''tailnet''),
                     constOf (JStr ''loopback'')])
       (JStr ''lan'') [SStr ''bind''] []"

definition levelParams :: renderParams where
  "levelParams =
     paramsFor
       (enumOf [JStr ''trace'', JStr ''debug'', JStr ''info'', JStr ''warn'', JStr ''error'',
                JStr ''fatal''])
       JUndefined [SStr ''level''] []"

definition noteParams :: renderParams where
  "noteParams = paramsFor (anyOfSchema [typed ''string'', typed ''null'']) JUndefined [SStr ''note''] []"


text \<open>
  A comparator is consistent when "not after" is total and transitive, as a collation is.
\<close>

definition consistentCompare :: "(string \<Rightarrow> string \<Rightarrow> int) \<Rightarrow> bool" where
  "consistentCompare lc =
     ((\<forall>a b. lc a b \<le> 0 \<or> lc b a \<le> 0)
      \<and> (\<forall>a b c. lc a b \<le> 0 \<and> lc b c \<le> 0 \<longrightarrow> lc a c \<le> 0))"

text \<open>
  The order of the properties of an object: ascending hint order (0 without an order
  hint), ties by the comparison of the property names.
\<close>

definition entryBefore ::
  "(string \<Rightarrow> string \<Rightarrow> int) \<Rightarrow> path \<Rightarrow> configUiHints \<Rightarrow> objectEntry \<Rightarrow> objectEntry \<Rightarrow> bool" where
  "entryBefore lc path hints a b =
     (entryOrder path hints (fst a) < entryOrder path hints (fst b)
      \<or> (entryOrder path hints (fst a) = entryOrder path hints (fst b) \<and> lc (fst a) (fst b) \<le> 0))"

definition schemaProperties :: "jsonSchema \<Rightarrow> objectEntry list" where
  "schemaProperties schema = (case s_properties schema of Some props \<Rightarrow> props | None \<Rightarrow> [])"

text \<open>The key of a group, as the grouping loop computes it for the group's first entry.\<close>

definition groupKeyOfGroup :: "fieldGroup \<Rightarrow> string" where
  "groupKeyOfGroup g =
     (if fg_advanced g then ''1'' else ''0'') @ '':'' @ toLowerCase (fg_label g)"

definition objectFields :: "view \<Rightarrow> fields option" where
  "objectFields v =
     (case v of
        VObjectTop fs extra \<Rightarrow> Some fs
      | VObjectDetails opened title help fs extra \<Rightarrow> Some fs
      | _ \<Rightarrow> None)"

definition serverParams :: renderParams where
  "serverParams =
     paramsFor
       (objectOf [(''port'', typed ''number''), (''token'', typed ''string''),
                  (''host'', typed ''string'')])
       JUndefined [SStr ''server'']
       [(''server.token'', noHint \<lparr> h_order := Some (- 1) \<rparr>)]"

text \<open>
  The invariant of the grouping loop: each group holds, in order, the entries seen so
  far that have its key, every entry seen has a group, and the index maps each key to
  the position of its group.
\<close>

definition groupsCover ::
  "path \<Rightarrow> configUiHints \<Rightarrow> fieldGroup list \<Rightarrow> objectEntry list \<Rightarrow> bool" where
  "groupsCover path hints groups entries =
     ((\<forall>i < length groups.
         fg_entries (groups ! i)
           = filter (\<lambda>e. groupKeyOf path hints (fst e) = groupKeyOfGroup (groups ! i)) entries)
      \<and> (\<forall>e \<in> set entries. \<exists>i < length groups.
            groupKeyOfGroup (groups ! i) = groupKeyOf path hints (fst e)))"

definition indexAgrees :: "fieldGroup list \<Rightarrow> (string \<times> nat) list \<Rightarrow> bool" where
  "indexAgrees groups indexByKey =
     (\<forall>k i. (map_of indexByKey k = Some i) = (i < length groups \<and> groupKeyOfGroup (groups ! i) = k))"


text \<open>Readers of a view, for the evaluations below.\<close>

definition buttonPatches :: "view \<Rightarrow> patch list" where
  "buttonPatches v = (case v of VSegmented sv \<Rightarrow> map sb_click (sg_buttons sv) | _ \<Rightarrow> [])"

definition arrayPatches :: "view \<Rightarrow> patch list" where
  "arrayPatches v =
     (case v of
        VArray header items \<Rightarrow>
          b_click (ah_add header) # map (\<lambda>item. case item of ArrayItem label remove editor \<Rightarrow> b_click remove) items
      | _ \<Rightarrow> [])"

definition rolesHints :: configUiHints where
  "rolesHints =
     [(''channels.discord.actions.roles'',
       noHint \<lparr> h_docsPath := Some ''/channels/discord'',
         h_impacts := Some
           [noImpact \<lparr> i_relation := Some ''requires'', i_when := Some ''truthy'',
              i_targetPath := Some ''channels.discord.actions.permissions'',
              i_targetWhen := Some ''truthy'',
              i_message := ''Role management depends on permissions actions being enabled.'',
              i_fixValue := JBool True, i_fixLabel := Some ''Enable permissions'' \<rparr>] \<rparr>)]"

definition rolesRoot :: jsval where
  "rolesRoot =
     JObj [(''channels'',
       JObj [(''discord'',
         JObj [(''actions'', JObj [(''roles'', JBool True), (''permissions'', JBool False)])])])]"

definition groupedHints :: configUiHints where
  "groupedHints =
     [(''server.host'', noHint \<lparr> h_group := Some ''Connection'' \<rparr>),
      (''server.port'', noHint \<lparr> h_group := Some ''Connection'' \<rparr>),
      (''server.token'', noHint \<lparr> h_group := Some ''Security'', h_advanced := Some True \<rparr>)]"

section \<open>Hint lookup\<close>

lemma includesStr_star: "includesStr k ''*'' = (CHR ''*'' \<in> set k)"
  by (induction k) auto

lemma matchLoop_iff:
  "matchLoop hs ss i =
     (\<forall>j. i \<le> j \<and> j < length ss \<longrightarrow> hs ! j = ''*'' \<or> hs ! j = ss ! j)"
proof (induction hs ss i rule: matchLoop.induct)
  case (1 hs ss i)
  show ?case
  proof (cases "i < length ss")
    case False
    then show ?thesis by (subst matchLoop.simps) auto
  next
    case inr: True
    show ?thesis
    proof (cases "hs ! i \<noteq> ''*'' \<and> hs ! i \<noteq> ss ! i")
      case True
      with inr show ?thesis
        by (subst matchLoop.simps) auto
    next
      case False
      then have ok: "hs ! i = ''*'' \<or> hs ! i = ss ! i" by blast
      have unfold: "matchLoop hs ss i = matchLoop hs ss (i + 1)"
        using inr ok by (subst matchLoop.simps) auto
      have ih: "matchLoop hs ss (i + 1) =
          (\<forall>j. i + 1 \<le> j \<and> j < length ss \<longrightarrow> hs ! j = ''*'' \<or> hs ! j = ss ! j)"
        using 1 [OF inr False] .
      have "(\<forall>j. i + 1 \<le> j \<and> j < length ss \<longrightarrow> hs ! j = ''*'' \<or> hs ! j = ss ! j)
          = (\<forall>j. i \<le> j \<and> j < length ss \<longrightarrow> hs ! j = ''*'' \<or> hs ! j = ss ! j)"
        using ok by (metis Suc_eq_plus1 Suc_leI le_eq_less_or_eq Suc_leD)
      with unfold ih show ?thesis by simp
    qed
  qed
qed

lemma segments_match_zip:
  "length hs = length ss \<Longrightarrow>
   list_all (\<lambda>(h, s). h \<noteq> ''*'' \<longrightarrow> h = s) (zip hs ss)
     = (\<forall>j. 0 \<le> j \<and> j < length ss \<longrightarrow> hs ! j = ''*'' \<or> hs ! j = ss ! j)"
  by (auto simp: list_all_length)

lemma hintLoop_find:
  "hintLoop (splitOn CHR ''.'' key) hints =
     map_option snd (find (\<lambda>entry. wildcardEntryMatches (fst entry) key) hints)"
proof (induction hints)
  case Nil
  then show ?case by simp
next
  case (Cons e rest)
  obtain k h where e: "e = (k, h)" by (cases e)
  show ?case
    using Cons
    by (auto simp: e includesStr_star matchLoop_iff wildcardEntryMatches_def segments_match_zip)
qed

lemma hintsAt_own: "map_of hints key = Some direct \<Longrightarrow> hintsAt hints key = Some direct"
  by (simp add: hintsAt_def)

lemma hintsAt_missing:
  "map_of hints key = None \<Longrightarrow> key \<notin> set objectPrototypeKeys \<Longrightarrow> hintsAt hints key = None"
  by (simp add: hintsAt_def)

text \<open>
  C2 as stated does not hold for a key that names a member of \<open>Object.prototype\<close>.
  The table \<open>{"*": {label: "Any"}}\<close> has no entry under \<open>toString\<close> and its wildcard
  entry matches that key, yet the lookup for the path \<open>toString\<close> returns the inherited
  member that \<open>hints["toString"]\<close> reads, not the wildcard entry's hint; and in the empty
  table the lookup for the path \<open>constructor\<close> returns the inherited member, not
  \<open>undefined\<close>.
\<close>

theorem inherited_member_shadows_wildcard:
  "map_of [(''*'', noHint \<lparr> h_label := Some ''Any'' \<rparr>)] (pathKey [SStr ''toString'']) = None
   \<and> find (\<lambda>entry. wildcardEntryMatches (fst entry) (pathKey [SStr ''toString'']))
        [(''*'', noHint \<lparr> h_label := Some ''Any'' \<rparr>)]
       = Some (''*'', noHint \<lparr> h_label := Some ''Any'' \<rparr>)
   \<and> hintForPath [SStr ''toString''] [(''*'', noHint \<lparr> h_label := Some ''Any'' \<rparr>)]
       = Some inheritedMember
   \<and> h_label inheritedMember = None
   \<and> resolveHint [SStr ''toString''] [(''*'', noHint \<lparr> h_label := Some ''Any'' \<rparr>)]
       = Some inheritedMember
   \<and> hintForPath [SStr ''constructor''] [] = Some inheritedMember
   \<and> resolveHint [SStr ''constructor''] FALLBACK_UI_HINTS = Some inheritedMember"
  by code_simp

text \<open>
  C2, amended. Hint lookup returns the entry the table holds under the path's dotted
  key when there is one, whatever wildcard entries the table holds. When there is none
  and the dotted key is not the name of a member inherited from \<open>Object.prototype\<close>, it
  returns the first entry, in the table's iteration order, that is a wildcard entry
  matching the key (its key has a \<open>*\<close>, splits at the dots into as many segments as the
  path's key, and each of its segments other than \<open>*\<close> equals the path's segment at
  that index), and no hint when there is no such entry. The lookup of the variant
  module, \<open>resolveHint\<close>, is the same function.
\<close>

theorem hintForPath_direct_then_first_wildcard:
  "(\<forall>direct. map_of hints (pathKey path) = Some direct
      \<longrightarrow> hintForPath path hints = Some direct)
   \<and> (map_of hints (pathKey path) = None \<and> pathKey path \<notin> set objectPrototypeKeys
      \<longrightarrow> hintForPath path hints
            = map_option snd
                (find (\<lambda>entry. wildcardEntryMatches (fst entry) (pathKey path)) hints))
   \<and> resolveHint path hints = hintForPath path hints"
  by (simp add: hintForPath_def resolveHint_def hintLoop_find hintsAt_own hintsAt_missing)

theorem hintForPath_direct_then_first_wildcard_witness:
  "hintForPath [SStr ''plugins'', SStr ''entries'', SStr ''voice-call'', SStr ''enabled'']
     [(''plugins.*.*.disabled'', noHint \<lparr> h_label := Some ''Other'' \<rparr>),
      (''plugins.entries.*.enabled'', noHint \<lparr> h_label := Some ''Plugin Enabled'' \<rparr>),
      (''*.*.*.*'', noHint \<lparr> h_label := Some ''Late'' \<rparr>)]
     = map_option snd
         (find (\<lambda>entry. wildcardEntryMatches (fst entry)
                  (pathKey [SStr ''plugins'', SStr ''entries'', SStr ''voice-call'', SStr ''enabled'']))
            [(''plugins.*.*.disabled'', noHint \<lparr> h_label := Some ''Other'' \<rparr>),
             (''plugins.entries.*.enabled'', noHint \<lparr> h_label := Some ''Plugin Enabled'' \<rparr>),
             (''*.*.*.*'', noHint \<lparr> h_label := Some ''Late'' \<rparr>)])
   \<and> hintForPath [SStr ''plugins'', SStr ''entries'', SStr ''voice-call'', SStr ''enabled'']
       [(''plugins.*.*.disabled'', noHint \<lparr> h_label := Some ''Other'' \<rparr>),
        (''plugins.entries.*.enabled'', noHint \<lparr> h_label := Some ''Plugin Enabled'' \<rparr>),
        (''*.*.*.*'', noHint \<lparr> h_label := Some ''Late'' \<rparr>)]
     = Some (noHint \<lparr> h_label := Some ''Plugin Enabled'' \<rparr>)
   \<and> hintForPath [SStr ''gateway'', SStr ''port'']
       [(''gateway.*'', noHint \<lparr> h_label := Some ''Any'' \<rparr>),
        (''gateway.port'', noHint \<lparr> h_label := Some ''Port'' \<rparr>)]
     = Some (noHint \<lparr> h_label := Some ''Port'' \<rparr>)"
proof -
  have missing: "map_of [(''plugins.*.*.disabled'', noHint \<lparr> h_label := Some ''Other'' \<rparr>),
        (''plugins.entries.*.enabled'', noHint \<lparr> h_label := Some ''Plugin Enabled'' \<rparr>),
        (''*.*.*.*'', noHint \<lparr> h_label := Some ''Late'' \<rparr>)]
       (pathKey [SStr ''plugins'', SStr ''entries'', SStr ''voice-call'', SStr ''enabled'']) = None
     \<and> pathKey [SStr ''plugins'', SStr ''entries'', SStr ''voice-call'', SStr ''enabled'']
         \<notin> set objectPrototypeKeys"
    by code_simp
  have run: "hintForPath [SStr ''plugins'', SStr ''entries'', SStr ''voice-call'', SStr ''enabled'']
      [(''plugins.*.*.disabled'', noHint \<lparr> h_label := Some ''Other'' \<rparr>),
       (''plugins.entries.*.enabled'', noHint \<lparr> h_label := Some ''Plugin Enabled'' \<rparr>),
       (''*.*.*.*'', noHint \<lparr> h_label := Some ''Late'' \<rparr>)]
    = Some (noHint \<lparr> h_label := Some ''Plugin Enabled'' \<rparr>)"
    by code_simp
  have own: "map_of [(''gateway.*'', noHint \<lparr> h_label := Some ''Any'' \<rparr>),
        (''gateway.port'', noHint \<lparr> h_label := Some ''Port'' \<rparr>)]
       (pathKey [SStr ''gateway'', SStr ''port'']) = Some (noHint \<lparr> h_label := Some ''Port'' \<rparr>)"
    by code_simp
  have first: "hintForPath [SStr ''plugins'', SStr ''entries'', SStr ''voice-call'', SStr ''enabled'']
     [(''plugins.*.*.disabled'', noHint \<lparr> h_label := Some ''Other'' \<rparr>),
      (''plugins.entries.*.enabled'', noHint \<lparr> h_label := Some ''Plugin Enabled'' \<rparr>),
      (''*.*.*.*'', noHint \<lparr> h_label := Some ''Late'' \<rparr>)]
     = map_option snd
         (find (\<lambda>entry. wildcardEntryMatches (fst entry)
                  (pathKey [SStr ''plugins'', SStr ''entries'', SStr ''voice-call'', SStr ''enabled'']))
            [(''plugins.*.*.disabled'', noHint \<lparr> h_label := Some ''Other'' \<rparr>),
             (''plugins.entries.*.enabled'', noHint \<lparr> h_label := Some ''Plugin Enabled'' \<rparr>),
             (''*.*.*.*'', noHint \<lparr> h_label := Some ''Late'' \<rparr>)])"
    using hintForPath_direct_then_first_wildcard
            [of "[(''plugins.*.*.disabled'', noHint \<lparr> h_label := Some ''Other'' \<rparr>),
                  (''plugins.entries.*.enabled'', noHint \<lparr> h_label := Some ''Plugin Enabled'' \<rparr>),
                  (''*.*.*.*'', noHint \<lparr> h_label := Some ''Late'' \<rparr>)]"
                "[SStr ''plugins'', SStr ''entries'', SStr ''voice-call'', SStr ''enabled'']",
             THEN conjunct2, THEN conjunct1, rule_format, OF missing] .
  have second: "hintForPath [SStr ''gateway'', SStr ''port'']
       [(''gateway.*'', noHint \<lparr> h_label := Some ''Any'' \<rparr>),
        (''gateway.port'', noHint \<lparr> h_label := Some ''Port'' \<rparr>)]
     = Some (noHint \<lparr> h_label := Some ''Port'' \<rparr>)"
    using hintForPath_direct_then_first_wildcard
            [of "[(''gateway.*'', noHint \<lparr> h_label := Some ''Any'' \<rparr>),
                  (''gateway.port'', noHint \<lparr> h_label := Some ''Port'' \<rparr>)]"
                "[SStr ''gateway'', SStr ''port'']",
             THEN conjunct1, rule_format, OF own] .
  from first run second show ?thesis by (intro conjI)
qed

section \<open>Paths and array indices\<close>

lemma stringSegments_withoutIndices [simp]:
  "stringSegments (withoutIndices path) = stringSegments path"
  unfolding withoutIndices_def
  by (induction path rule: stringSegments.induct) auto

lemma stringSegments_append_index [simp]:
  "stringSegments (path @ [SNum i]) = stringSegments path"
  by (induction path rule: stringSegments.induct) auto

lemma pathKey_withoutIndices [simp]: "pathKey (withoutIndices path) = pathKey path"
  by (simp add: pathKey_def)

lemma pathKey_append_index [simp]: "pathKey (path @ [SNum i]) = pathKey path"
  by (simp add: pathKey_def)

lemma impactLoop_filter_gen:
  "impactLoop path rootValue sourceValue impacts resolved =
     resolved @
     map (reportedImpact path)
       (filter (\<lambda>impact.
            evaluateCheck sourceValue (sourceCheckForImpact impact) (i_whenValue impact)
            \<and> \<not> wildcardLeft path impact
            \<and> (if relationForImpact impact = ''risk'' then True
               else if relationForImpact impact = ''conflicts''
                 then hasTargetPath impact \<and> targetCheckHolds path rootValue impact
               else \<not> hasTargetPath impact \<or> \<not> targetCheckHolds path rootValue impact))
          impacts)"
proof (induction impacts arbitrary: resolved)
  case Nil
  then show ?case by simp
next
  case (Cons impact rest)
  show ?case
  proof (cases "i_targetPath impact")
    case None
    then show ?thesis
      by (simp add: Cons.IH Let_def targetPathSegments_def wildcardLeft_def hasTargetPath_def
            truthyStr_def targetCheckHolds_def reportedImpact_def)
  next
    case (Some tp)
    then show ?thesis
      by (simp add: Cons.IH Let_def targetPathSegments_def wildcardLeft_def hasTargetPath_def
            truthyStr_def targetCheckHolds_def reportedImpact_def)
  qed
qed

lemma resolveImpactsOf_filter:
  "resolveImpactsOf hint path rootValue =
     map (reportedImpact path)
       (filter (\<lambda>impact. impactActive path rootValue impact \<and> \<not> wildcardLeft path impact)
          (hintImpacts hint))"
proof (cases "hintImpacts hint")
  case Nil
  then show ?thesis by (simp add: resolveImpactsOf_def)
next
  case (Cons impact rest)
  have same: "(\<lambda>impact. impactActive path rootValue impact \<and> \<not> wildcardLeft path impact)
      = (\<lambda>impact.
            evaluateCheck (getValueAtPath rootValue (stringSegments path))
              (sourceCheckForImpact impact) (i_whenValue impact)
            \<and> \<not> wildcardLeft path impact
            \<and> (if relationForImpact impact = ''risk'' then True
               else if relationForImpact impact = ''conflicts''
                 then hasTargetPath impact \<and> targetCheckHolds path rootValue impact
               else \<not> hasTargetPath impact \<or> \<not> targetCheckHolds path rootValue impact))"
    by (auto simp: impactActive_def sourceCheckHolds_def fun_eq_iff)
  show ?thesis
    unfolding same
    using Cons by (simp add: resolveImpactsOf_def impactLoop_filter_gen del: impactLoop.simps)
qed

lemma resolveWildcardPath_stringSegments:
  "stringSegments p = stringSegments q \<Longrightarrow> resolveWildcardPath tp p = resolveWildcardPath tp q"
  by (simp add: resolveWildcardPath_def)

lemma reportedImpact_stringSegments:
  assumes "stringSegments p = stringSegments q"
  shows "reportedImpact p = reportedImpact q"
proof -
  have rw: "\<And>tp. resolveWildcardPath tp p = resolveWildcardPath tp q"
    using assms by (rule resolveWildcardPath_stringSegments)
  show ?thesis
    by (auto simp: reportedImpact_def targetPathSegments_def rw fun_eq_iff split: option.splits)
qed

lemma impactActive_stringSegments:
  assumes "stringSegments p = stringSegments q"
  shows "(impactActive p rootValue impact \<and> \<not> wildcardLeft p impact)
     = (impactActive q rootValue impact \<and> \<not> wildcardLeft q impact)"
proof -
  have rw: "\<And>tp. resolveWildcardPath tp p = resolveWildcardPath tp q"
    using assms by (rule resolveWildcardPath_stringSegments)
  show ?thesis
    by (simp add: impactActive_def sourceCheckHolds_def targetCheckHolds_def wildcardLeft_def
        rw assms cong: option.case_cong)
qed

lemma resolveImpactsOf_stringSegments:
  "stringSegments p = stringSegments q \<Longrightarrow>
   resolveImpactsOf hint p rootValue = resolveImpactsOf hint q rootValue"
  by (simp add: resolveImpactsOf_filter reportedImpact_stringSegments [of p q]
        impactActive_stringSegments [of p q])

text \<open>
  C10. Hint lookup, sensitivity detection and impact resolution read only the string
  segments of a path: each gives the same result on a path and on the path with its
  numeric segments removed. In particular an array element (the array's path followed
  by an index) has the hint and the sensitivity of the array itself.
\<close>

theorem numeric_segments_ignored:
  "hintForPath (withoutIndices path) hints = hintForPath path hints
   \<and> isSensitivePath (withoutIndices path) = isSensitivePath path
   \<and> resolveConfigImpacts (withoutIndices path) hints rootValue
       = resolveConfigImpacts path hints rootValue
   \<and> hintForPath (path @ [SNum i]) hints = hintForPath path hints
   \<and> isSensitivePath (path @ [SNum i]) = isSensitivePath path
   \<and> hintForPath_fb (withoutIndices path) hints = hintForPath_fb path hints
   \<and> resolveConfigImpacts_fb (withoutIndices path) hints rootValue
       = resolveConfigImpacts_fb path hints rootValue"
proof -
  have seg: "stringSegments (withoutIndices path) = stringSegments path" by simp
  have h: "hintForPath (withoutIndices path) hints = hintForPath path hints"
    by (simp add: hintForPath_def cong: option.case_cong)
  have hfb: "hintForPath_fb (withoutIndices path) hints = hintForPath_fb path hints"
    by (simp add: hintForPath_fb_def resolveHint_def cong: option.case_cong)
  have s: "isSensitivePath (withoutIndices path) = isSensitivePath path"
    by (simp add: isSensitivePath_def)
  have r: "resolveConfigImpacts (withoutIndices path) hints rootValue
             = resolveConfigImpacts path hints rootValue"
    unfolding resolveConfigImpacts_def h by (rule resolveImpactsOf_stringSegments [OF seg])
  have rfb: "resolveConfigImpacts_fb (withoutIndices path) hints rootValue
             = resolveConfigImpacts_fb path hints rootValue"
    unfolding resolveConfigImpacts_fb_def hfb by (rule resolveImpactsOf_stringSegments [OF seg])
  have e: "hintForPath (path @ [SNum i]) hints = hintForPath path hints"
    by (simp add: hintForPath_def cong: option.case_cong)
  have es: "isSensitivePath (path @ [SNum i]) = isSensitivePath path"
    by (simp add: isSensitivePath_def)
  from h s r e es hfb rfb show ?thesis by blast
qed

theorem numeric_segments_ignored_witness:
  "hintForPath [SStr ''owners'', SNum 2] [(''owners'', noHint \<lparr> h_label := Some ''Owners'' \<rparr>)]
     = Some (noHint \<lparr> h_label := Some ''Owners'' \<rparr>)
   \<and> isSensitivePath [SStr ''apiKeys'', SNum 0]"
proof -
  have "hintForPath ([SStr ''owners''] @ [SNum 2]) [(''owners'', noHint \<lparr> h_label := Some ''Owners'' \<rparr>)]
          = hintForPath [SStr ''owners''] [(''owners'', noHint \<lparr> h_label := Some ''Owners'' \<rparr>)]"
    and "isSensitivePath ([SStr ''apiKeys''] @ [SNum 0]) = isSensitivePath [SStr ''apiKeys'']"
    using numeric_segments_ignored [of "[SStr ''owners'']" _ _ 2]
          numeric_segments_ignored [of "[SStr ''apiKeys'']" _ _ 0]
    by blast+
  moreover have "hintForPath [SStr ''owners''] [(''owners'', noHint \<lparr> h_label := Some ''Owners'' \<rparr>)]
      = Some (noHint \<lparr> h_label := Some ''Owners'' \<rparr>)"
    by code_simp
  moreover have "isSensitivePath [SStr ''apiKeys'']"
    by (simp add: isSensitivePath_def pathKey_def toLowerCase_def lowerChar_def endsWith_def)
  ultimately show ?thesis by simp
qed

section \<open>The merged lookup of the variant module\<close>



section \<open>Impact resolution\<close>

lemma length_substituteFrom [simp]:
  "length (substituteFrom src index segs) = length segs"
  by (induction segs arbitrary: index) auto
















text \<open>
  C1 as stated does not hold: a \<open>risk\<close> impact whose source check holds is not
  reported when its target path keeps a \<open>*\<close> segment after the substitution. Here the
  path \<open>open\<close> has one string segment and the target path \<open>peers.*\<close> has its \<open>*\<close> at
  index 1.
\<close>

theorem risk_impact_not_always_reported:
  "resolveConfigImpacts [SStr ''open''] danglingHints danglingRoot = []
   \<and> map (reportedImpact [SStr ''open''])
       (filter (impactActive [SStr ''open''] danglingRoot)
          (hintImpacts (hintForPath [SStr ''open''] danglingHints)))
     = [\<lparr> r_relation = ''risk'', r_message = ''Exposed to peers.'', r_docsPath = None,
          r_targetPath = Some ''peers.*'', r_fixValue = JUndefined, r_fixLabel = None \<rparr>]"
  by code_simp

text \<open>
  C1, amended. \<open>resolveConfigImpacts\<close> returns, in the order of the hint's list, the
  entries of exactly those impacts of the hint resolved for the path that are active and
  whose target path, if they have one, has no \<open>*\<close> segment left after the wildcard
  substitution. Active means: the source check holds; and the relation is \<open>risk\<close>, or
  it is \<open>conflicts\<close> and the impact has a target path on whose value the target check
  holds, or it is any other relation and the impact has no target path or the target
  check fails. This holds in both modules, each with its own \<open>hintForPath\<close>.
\<close>

theorem resolveConfigImpacts_active_impacts:
  "resolveConfigImpacts path hints rootValue =
     map (reportedImpact path)
       (filter (\<lambda>impact. impactActive path rootValue impact \<and> \<not> wildcardLeft path impact)
          (hintImpacts (hintForPath path hints)))
   \<and> resolveConfigImpacts_fb path hints rootValue =
     map (reportedImpact path)
       (filter (\<lambda>impact. impactActive path rootValue impact \<and> \<not> wildcardLeft path impact)
          (hintImpacts (hintForPath_fb path hints)))"
  by (simp add: resolveConfigImpacts_def resolveConfigImpacts_fb_def resolveImpactsOf_filter)

theorem resolveConfigImpacts_active_impacts_witness:
  "map (reportedImpact dmPolicyPath)
     (filter (\<lambda>impact. impactActive dmPolicyPath dmPolicyRoot impact
                \<and> \<not> wildcardLeft dmPolicyPath impact)
        (hintImpacts (hintForPath dmPolicyPath dmPolicyHints)))
   = [\<lparr> r_relation = ''requires'',
        r_message = i_message (openDmImpact ''channels.*.dm.allowFrom''),
        r_docsPath = None,
        r_targetPath = Some ''channels.discord.dm.allowFrom'',
        r_fixValue = JArr [JStr ''*''],
        r_fixLabel = i_fixLabel (openDmImpact ''channels.*.dm.allowFrom'') \<rparr>]"
proof -
  have run: "resolveConfigImpacts dmPolicyPath dmPolicyHints dmPolicyRoot
    = [\<lparr> r_relation = ''requires'',
        r_message = i_message (openDmImpact ''channels.*.dm.allowFrom''),
        r_docsPath = None,
        r_targetPath = Some ''channels.discord.dm.allowFrom'',
        r_fixValue = JArr [JStr ''*''],
        r_fixLabel = i_fixLabel (openDmImpact ''channels.*.dm.allowFrom'') \<rparr>]"
    by code_simp
  show ?thesis
    using resolveConfigImpacts_active_impacts [of dmPolicyPath dmPolicyHints dmPolicyRoot,
            THEN conjunct1, symmetric]
    by (simp only: run)
qed

section \<open>Unsupported nodes\<close>

lemma unionBlock_no_union:
  "s_anyOf schema = None \<Longrightarrow> s_oneOf schema = None \<Longrightarrow> unionBlock schema = FallThrough"
  by (simp add: unionBlock_def)

text \<open>
  C3 as stated does not hold: a union of the types string and number is none of the
  listed kinds (it has no type and no enum, and its variants are not literals), and
  \<open>renderNode\<close> renders a text input for it, not an error field.
\<close>

theorem primitive_union_renders_text_input:
  "\<not> inSupportedSubset (anyOfSchema [typed ''string'', typed ''number''])
   \<and> renderNode byteCompare
       (paramsFor (anyOfSchema [typed ''string'', typed ''number'']) JUndefined [SStr ''bind''] [])
     = VText \<lparr> ti_label = Some ''Bind'', ti_assist = None, ti_type = ''text'',
               ti_placeholder = [], ti_value = [], ti_disabled = False, ti_reset = None \<rparr>
   \<and> \<not> isErrorField (renderNode byteCompare
       (paramsFor (anyOfSchema [typed ''string'', typed ''number'']) JUndefined [SStr ''bind''] []))"
  by code_simp

text \<open>
  C3, amended. A path listed in the unsupported set renders the error field
  \<open>Unsupported schema node. Use Raw mode.\<close> whatever its schema. For a path not in the
  set: when the \<open>anyOf\<close>/\<open>oneOf\<close> block decides nothing (as it does when the schema has
  neither keyword), the schema has no \<open>enum\<close>, and the resolved type is none of object,
  array, boolean, number, integer and string, the node renders the error field
  \<open>Unsupported type: ... Use Raw mode.\<close>; and an array without an items schema renders
  the error field \<open>Unsupported array schema. Use Raw mode.\<close>
\<close>

theorem unsupported_nodes_render_error_field:
  "(pathKey (p_path params) \<in> p_unsupported params
      \<longrightarrow> renderNode lc params
            = VError (fieldLabel params) ''Unsupported schema node. Use Raw mode.'')
   \<and> (pathKey (p_path params) \<notin> p_unsupported params
        \<and> unionBlock (p_schema params) = FallThrough
        \<and> s_enum (p_schema params) = None
        \<and> schemaType (p_schema params)
             \<notin> set [Some ''object'', Some ''array'', Some ''boolean'', Some ''number'',
                     Some ''integer'', Some ''string'']
      \<longrightarrow> renderNode lc params
            = VError (fieldLabel params)
                (''Unsupported type: '' @ typeText (schemaType (p_schema params))
                   @ ''. Use Raw mode.''))
   \<and> (pathKey (p_path params) \<notin> p_unsupported params
        \<and> unionBlock (p_schema params) = FallThrough
        \<and> s_enum (p_schema params) = None
        \<and> schemaType (p_schema params) = Some ''array''
        \<and> itemsSchemaOf (p_schema params) = None
      \<longrightarrow> renderNode lc params
            = VError (fieldLabel params) ''Unsupported array schema. Use Raw mode.'')
   \<and> (s_anyOf (p_schema params) = None \<and> s_oneOf (p_schema params) = None
      \<longrightarrow> unionBlock (p_schema params) = FallThrough)"
proof (intro conjI impI)
  assume "pathKey (p_path params) \<in> p_unsupported params"
  then show "renderNode lc params
      = VError (fieldLabel params) ''Unsupported schema node. Use Raw mode.''"
    by (subst renderNode.simps) simp
next
  assume "pathKey (p_path params) \<notin> p_unsupported params
        \<and> unionBlock (p_schema params) = FallThrough
        \<and> s_enum (p_schema params) = None
        \<and> schemaType (p_schema params)
             \<notin> set [Some ''object'', Some ''array'', Some ''boolean'', Some ''number'',
                     Some ''integer'', Some ''string'']"
  then show "renderNode lc params
      = VError (fieldLabel params)
          (''Unsupported type: '' @ typeText (schemaType (p_schema params)) @ ''. Use Raw mode.'')"
    by (subst renderNode.simps) simp
next
  assume "pathKey (p_path params) \<notin> p_unsupported params
        \<and> unionBlock (p_schema params) = FallThrough
        \<and> s_enum (p_schema params) = None
        \<and> schemaType (p_schema params) = Some ''array''
        \<and> itemsSchemaOf (p_schema params) = None"
  then show "renderNode lc params
      = VError (fieldLabel params) ''Unsupported array schema. Use Raw mode.''"
    by (subst renderNode.simps, subst renderArray.simps) simp
next
  assume "s_anyOf (p_schema params) = None \<and> s_oneOf (p_schema params) = None"
  then show "unionBlock (p_schema params) = FallThrough"
    by (simp add: unionBlock_no_union)
qed

theorem unsupported_nodes_render_error_field_witness:
  "renderNode byteCompare
     ((paramsFor (typed ''string'') (JStr ''x'') [SStr ''mixed''] [])
        \<lparr> p_unsupported := {''mixed''} \<rparr>)
     = VError ''Mixed'' ''Unsupported schema node. Use Raw mode.''
   \<and> renderNode byteCompare (paramsFor (typed ''tuple'') JUndefined [SStr ''pair''] [])
     = VError ''Pair'' ''Unsupported type: tuple. Use Raw mode.''
   \<and> renderNode byteCompare (paramsFor (typed ''array'') JUndefined [SStr ''list''] [])
     = VError ''List'' ''Unsupported array schema. Use Raw mode.''
   \<and> unionBlock (typed ''tuple'') = FallThrough"
proof -
  have a: "pathKey (p_path ((paramsFor (typed ''string'') (JStr ''x'') [SStr ''mixed''] [])
        \<lparr> p_unsupported := {''mixed''} \<rparr>))
      \<in> p_unsupported ((paramsFor (typed ''string'') (JStr ''x'') [SStr ''mixed''] [])
        \<lparr> p_unsupported := {''mixed''} \<rparr>)"
    by code_simp
  have la: "fieldLabel ((paramsFor (typed ''string'') (JStr ''x'') [SStr ''mixed''] [])
        \<lparr> p_unsupported := {''mixed''} \<rparr>) = ''Mixed''"
    by code_simp
  have b: "pathKey (p_path (paramsFor (typed ''tuple'') JUndefined [SStr ''pair''] []))
             \<notin> p_unsupported (paramsFor (typed ''tuple'') JUndefined [SStr ''pair''] [])
        \<and> unionBlock (p_schema (paramsFor (typed ''tuple'') JUndefined [SStr ''pair''] [])) = FallThrough
        \<and> s_enum (p_schema (paramsFor (typed ''tuple'') JUndefined [SStr ''pair''] [])) = None
        \<and> schemaType (p_schema (paramsFor (typed ''tuple'') JUndefined [SStr ''pair''] []))
             \<notin> set [Some ''object'', Some ''array'', Some ''boolean'', Some ''number'',
                     Some ''integer'', Some ''string'']"
    by code_simp
  have lb: "fieldLabel (paramsFor (typed ''tuple'') JUndefined [SStr ''pair''] []) = ''Pair''"
    and tb: "''Unsupported type: ''
         @ typeText (schemaType (p_schema (paramsFor (typed ''tuple'') JUndefined [SStr ''pair''] [])))
         @ ''. Use Raw mode.'' = ''Unsupported type: tuple. Use Raw mode.''"
    by code_simp+
  have c: "pathKey (p_path (paramsFor (typed ''array'') JUndefined [SStr ''list''] []))
             \<notin> p_unsupported (paramsFor (typed ''array'') JUndefined [SStr ''list''] [])
        \<and> unionBlock (p_schema (paramsFor (typed ''array'') JUndefined [SStr ''list''] [])) = FallThrough
        \<and> s_enum (p_schema (paramsFor (typed ''array'') JUndefined [SStr ''list''] [])) = None
        \<and> schemaType (p_schema (paramsFor (typed ''array'') JUndefined [SStr ''list''] []))
             = Some ''array''
        \<and> itemsSchemaOf (p_schema (paramsFor (typed ''array'') JUndefined [SStr ''list''] [])) = None"
    by code_simp
  have lc: "fieldLabel (paramsFor (typed ''array'') JUndefined [SStr ''list''] []) = ''List''"
    by code_simp
  have d: "s_anyOf (p_schema (paramsFor (typed ''tuple'') JUndefined [SStr ''pair''] [])) = None
      \<and> s_oneOf (p_schema (paramsFor (typed ''tuple'') JUndefined [SStr ''pair''] [])) = None"
    and sd: "p_schema (paramsFor (typed ''tuple'') JUndefined [SStr ''pair''] []) = typed ''tuple''"
    by code_simp+
  note main = unsupported_nodes_render_error_field
  from main [of "(paramsFor (typed ''string'') (JStr ''x'') [SStr ''mixed''] [])
        \<lparr> p_unsupported := {''mixed''} \<rparr>" byteCompare, THEN conjunct1, rule_format, OF a]
  have r1: "renderNode byteCompare
     ((paramsFor (typed ''string'') (JStr ''x'') [SStr ''mixed''] [])
        \<lparr> p_unsupported := {''mixed''} \<rparr>)
     = VError ''Mixed'' ''Unsupported schema node. Use Raw mode.''"
    by (simp only: la)
  from main [of "paramsFor (typed ''tuple'') JUndefined [SStr ''pair''] []" byteCompare,
            THEN conjunct2, THEN conjunct1, rule_format, OF b]
  have r2: "renderNode byteCompare (paramsFor (typed ''tuple'') JUndefined [SStr ''pair''] [])
     = VError ''Pair'' ''Unsupported type: tuple. Use Raw mode.''"
    by (simp only: lb tb)
  from main [of "paramsFor (typed ''array'') JUndefined [SStr ''list''] []" byteCompare,
            THEN conjunct2, THEN conjunct2, THEN conjunct1, rule_format, OF c]
  have r3: "renderNode byteCompare (paramsFor (typed ''array'') JUndefined [SStr ''list''] [])
     = VError ''List'' ''Unsupported array schema. Use Raw mode.''"
    by (simp only: lc)
  from main [of "paramsFor (typed ''tuple'') JUndefined [SStr ''pair''] []" byteCompare,
            THEN conjunct2, THEN conjunct2, THEN conjunct2, rule_format, OF d]
  have r4: "unionBlock (typed ''tuple'') = FallThrough"
    by (simp only: sd)
  from r1 r2 r3 r4 show ?thesis by blast
qed

section \<open>Unions of literals and enums\<close>

lemma extractLiteral_literal: "isLiteralVariant v = (extractLiteral v \<noteq> JUndefined)"
  by (auto simp: isLiteralVariant_def extractLiteral_def split: option.splits list.splits)

lemma unionBlock_literals:
  assumes u: "hasUnion schema"
    and n: "length (nonNullVariants schema) \<noteq> 1"
    and ne: "nonNullVariants schema \<noteq> []"
    and lits: "list_all isLiteralVariant (nonNullVariants schema)"
  shows "unionBlock schema =
     (if length (nonNullVariants schema) \<le> 5
      then UseSegmented (map extractLiteral (nonNullVariants schema))
      else UseSelect (map extractLiteral (nonNullVariants schema)))"
proof -
  have all: "list_all (\<lambda>v. v \<noteq> JUndefined) (map extractLiteral (nonNullVariants schema))"
    using lits by (simp add: list_all_iff extractLiteral_literal)
  obtain a b rest where shape: "nonNullVariants schema = a # b # rest"
    using n ne by (cases "nonNullVariants schema"; cases "tl (nonNullVariants schema)") auto
  show ?thesis
    using u all unfolding unionBlock_def hasUnion_def Let_def
    by (simp add: shape)
qed

lemma unionBlock_single:
  "hasUnion schema \<Longrightarrow> nonNullVariants schema = [v] \<Longrightarrow> unionBlock schema = UseVariant v"
  by (simp add: unionBlock_def hasUnion_def)

lemma length_indexedFrom [simp]: "length (indexedFrom i xs) = length xs"
  by (induction xs arbitrary: i) auto

lemma map_snd_indexedFrom [simp]: "map snd (indexedFrom i xs) = xs"
  by (induction xs arbitrary: i) auto

lemma nth_indexedFrom: "j < length xs \<Longrightarrow> indexedFrom i xs ! j = (i + j, xs ! j)"
proof (induction xs arbitrary: i j)
  case Nil
  then show ?case by simp
next
  case (Cons x xs)
  then show ?case by (cases j) auto
qed

text \<open>
  C4 as stated does not hold: in the union of the literal \<open>{const: "on"}\<close> and
  \<open>null\<close>, all non-null variants are literals and there is one option, yet the node is
  rendered as its single non-null variant, the \<open>const\<close> schema, which has no type: an
  error field, not a segmented control with one button.
\<close>

theorem nullable_literal_not_segmented:
  "hasUnion (anyOfSchema [constOf (JStr ''on''), typed ''null''])
   \<and> list_all isLiteralVariant (nonNullVariants (anyOfSchema [constOf (JStr ''on''), typed ''null'']))
   \<and> length (nonNullVariants (anyOfSchema [constOf (JStr ''on''), typed ''null''])) \<le> 5
   \<and> isErrorField (renderNode byteCompare
       (paramsFor (anyOfSchema [constOf (JStr ''on''), typed ''null'']) JUndefined [SStr ''mode''] []))
   \<and> renderNode byteCompare
       (paramsFor (anyOfSchema [constOf (JStr ''on''), typed ''null'']) JUndefined [SStr ''mode''] [])
     \<noteq> segmentedField
         (paramsFor (anyOfSchema [constOf (JStr ''on''), typed ''null'']) JUndefined [SStr ''mode''] [])
         [JStr ''on'']
   \<and> renderNode byteCompare
       (paramsFor (anyOfSchema [constOf (JStr ''on''), typed ''null'']) JUndefined [SStr ''mode''] [])
     = renderNode byteCompare
         (paramsFor (constOf (JStr ''on'')) JUndefined [SStr ''mode''] [])"
  by code_simp

text \<open>
  C4, amended. For a path that is not in the unsupported set: an \<open>anyOf\<close>/\<open>oneOf\<close>
  schema with at least two non-null variants, all of them literals, renders a segmented
  control over the literals when there are at most 5 and a dropdown select over them when
  there are more; a schema with an \<open>enum\<close> and no \<open>anyOf\<close>/\<open>oneOf\<close> renders a segmented
  control over the options when there are at most 5 and a select when there are more;
  and an \<open>anyOf\<close>/\<open>oneOf\<close> with exactly one non-null variant renders as that variant
  does. The segmented control has exactly one button per option, in order, each
  patching the path with its option; the select has, after its unset entry, one entry
  per option.
\<close>

theorem literal_unions_and_enums:
  "(pathKey (p_path params) \<notin> p_unsupported params
      \<and> hasUnion (p_schema params)
      \<and> 2 \<le> length (nonNullVariants (p_schema params))
      \<and> list_all isLiteralVariant (nonNullVariants (p_schema params))
    \<longrightarrow> (length (nonNullVariants (p_schema params)) \<le> 5
           \<longrightarrow> renderNode lc params
                 = segmentedField params (map extractLiteral (nonNullVariants (p_schema params))))
        \<and> (5 < length (nonNullVariants (p_schema params))
           \<longrightarrow> renderNode lc params
                 = renderSelect
                     (params \<lparr> p_value := nullish (p_value params) (s_default (p_schema params)) \<rparr>)
                     (map extractLiteral (nonNullVariants (p_schema params)))))
   \<and> (\<forall>options.
        pathKey (p_path params) \<notin> p_unsupported params
        \<and> \<not> hasUnion (p_schema params)
        \<and> s_enum (p_schema params) = Some options
      \<longrightarrow> (length options \<le> 5 \<longrightarrow> renderNode lc params = segmentedField params options)
        \<and> (5 < length options
           \<longrightarrow> renderNode lc params
                 = renderSelect
                     (params \<lparr> p_value := nullish (p_value params) (s_default (p_schema params)) \<rparr>)
                     options))
   \<and> (\<forall>v. pathKey (p_path params) \<notin> p_unsupported params
        \<and> hasUnion (p_schema params)
        \<and> nonNullVariants (p_schema params) = [v]
      \<longrightarrow> renderNode lc params = renderNode lc (params \<lparr> p_schema := v \<rparr>))
   \<and> (\<forall>options. \<exists>sv.
        segmentedField params options = VSegmented sv
        \<and> length (sg_buttons sv) = length options
        \<and> (\<forall>i < length options.
              sb_click (sg_buttons sv ! i) = (p_path params, options ! i)
              \<and> sb_text (sg_buttons sv ! i) = jsToString (options ! i)))
   \<and> (\<forall>options. \<exists>sv.
        renderSelect params options = VSelect sv
        \<and> length (sel_options sv) = Suc (length options)
        \<and> so_choose (sel_options sv ! 0) = (p_path params, JUndefined)
        \<and> (\<forall>i < length options.
              so_choose (sel_options sv ! Suc i) = (p_path params, options ! i)
              \<and> so_text (sel_options sv ! Suc i) = jsToString (options ! i)))"
proof (intro conjI allI impI)
  assume a: "pathKey (p_path params) \<notin> p_unsupported params
      \<and> hasUnion (p_schema params)
      \<and> 2 \<le> length (nonNullVariants (p_schema params))
      \<and> list_all isLiteralVariant (nonNullVariants (p_schema params))"
  then have ub: "unionBlock (p_schema params) =
     (if length (nonNullVariants (p_schema params)) \<le> 5
      then UseSegmented (map extractLiteral (nonNullVariants (p_schema params)))
      else UseSelect (map extractLiteral (nonNullVariants (p_schema params))))"
    by (intro unionBlock_literals) auto
  {
    assume "length (nonNullVariants (p_schema params)) \<le> 5"
    with a ub show "renderNode lc params
        = segmentedField params (map extractLiteral (nonNullVariants (p_schema params)))"
      by (subst renderNode.simps) simp
  }
  {
    assume "5 < length (nonNullVariants (p_schema params))"
    with a ub show "renderNode lc params
        = renderSelect
            (params \<lparr> p_value := nullish (p_value params) (s_default (p_schema params)) \<rparr>)
            (map extractLiteral (nonNullVariants (p_schema params)))"
      by (subst renderNode.simps) simp
  }
next
  fix options
  assume a: "pathKey (p_path params) \<notin> p_unsupported params
        \<and> \<not> hasUnion (p_schema params)
        \<and> s_enum (p_schema params) = Some options"
  then have ub: "unionBlock (p_schema params) = FallThrough"
    by (simp add: hasUnion_def unionBlock_no_union)
  {
    assume "length options \<le> 5"
    with a ub show "renderNode lc params = segmentedField params options"
      by (subst renderNode.simps) simp
  }
  {
    assume "5 < length options"
    with a ub show "renderNode lc params
        = renderSelect
            (params \<lparr> p_value := nullish (p_value params) (s_default (p_schema params)) \<rparr>)
            options"
      by (subst renderNode.simps) simp
  }
next
  fix v
  assume a: "pathKey (p_path params) \<notin> p_unsupported params
        \<and> hasUnion (p_schema params)
        \<and> nonNullVariants (p_schema params) = [v]"
  then have "unionBlock (p_schema params) = UseVariant v"
    by (simp add: unionBlock_single)
  with a show "renderNode lc params = renderNode lc (params \<lparr> p_schema := v \<rparr>)"
    by (subst renderNode.simps) simp
next
  fix options
  show "\<exists>sv. segmentedField params options = VSegmented sv
        \<and> length (sg_buttons sv) = length options
        \<and> (\<forall>i < length options.
              sb_click (sg_buttons sv ! i) = (p_path params, options ! i)
              \<and> sb_text (sg_buttons sv ! i) = jsToString (options ! i))"
    by (simp add: segmentedField_def Let_def)
next
  fix options
  show "\<exists>sv. renderSelect params options = VSelect sv
        \<and> length (sel_options sv) = Suc (length options)
        \<and> so_choose (sel_options sv ! 0) = (p_path params, JUndefined)
        \<and> (\<forall>i < length options.
              so_choose (sel_options sv ! Suc i) = (p_path params, options ! i)
              \<and> so_text (sel_options sv ! Suc i) = jsToString (options ! i))"
    by (simp add: renderSelect_def Let_def nth_indexedFrom case_prod_beta)
qed

theorem literal_unions_and_enums_witness:
  "renderNode byteCompare bindParams
     = segmentedField bindParams [JStr ''auto'', JStr ''lan'', JStr ''tailnet'', JStr ''loopback'']
   \<and> renderNode byteCompare levelParams
     = renderSelect (levelParams \<lparr> p_value := JUndefined \<rparr>)
         [JStr ''trace'', JStr ''debug'', JStr ''info'', JStr ''warn'', JStr ''error'', JStr ''fatal'']
   \<and> renderNode byteCompare noteParams
     = renderNode byteCompare (noteParams \<lparr> p_schema := typed ''string'' \<rparr>)"
proof -
  note main = literal_unions_and_enums
  have b: "pathKey (p_path bindParams) \<notin> p_unsupported bindParams
      \<and> hasUnion (p_schema bindParams)
      \<and> 2 \<le> length (nonNullVariants (p_schema bindParams))
      \<and> list_all isLiteralVariant (nonNullVariants (p_schema bindParams))"
    by code_simp
  have b5: "length (nonNullVariants (p_schema bindParams)) \<le> 5"
    by code_simp
  have bl: "map extractLiteral (nonNullVariants (p_schema bindParams))
      = [JStr ''auto'', JStr ''lan'', JStr ''tailnet'', JStr ''loopback'']"
    by code_simp
  from main [of bindParams byteCompare, THEN conjunct1, rule_format, OF b, THEN conjunct1,
             rule_format, OF b5]
  have r1: "renderNode byteCompare bindParams
     = segmentedField bindParams [JStr ''auto'', JStr ''lan'', JStr ''tailnet'', JStr ''loopback'']"
    by (simp only: bl)
  have e: "pathKey (p_path levelParams) \<notin> p_unsupported levelParams
        \<and> \<not> hasUnion (p_schema levelParams)
        \<and> s_enum (p_schema levelParams)
            = Some [JStr ''trace'', JStr ''debug'', JStr ''info'', JStr ''warn'', JStr ''error'',
                    JStr ''fatal'']"
    by code_simp
  have e5: "5 < length [JStr ''trace'', JStr ''debug'', JStr ''info'', JStr ''warn'', JStr ''error'',
                    JStr ''fatal'']"
    by simp
  have ev: "nullish (p_value levelParams) (s_default (p_schema levelParams)) = JUndefined"
    by code_simp
  from main [of levelParams byteCompare, THEN conjunct2, THEN conjunct1, rule_format, OF e,
             THEN conjunct2, rule_format, OF e5]
  have r2: "renderNode byteCompare levelParams
     = renderSelect (levelParams \<lparr> p_value := JUndefined \<rparr>)
         [JStr ''trace'', JStr ''debug'', JStr ''info'', JStr ''warn'', JStr ''error'', JStr ''fatal'']"
    by (simp only: ev)
  have n: "pathKey (p_path noteParams) \<notin> p_unsupported noteParams
        \<and> hasUnion (p_schema noteParams)
        \<and> nonNullVariants (p_schema noteParams) = [typed ''string'']"
    by code_simp
  from main [of noteParams byteCompare, THEN conjunct2, THEN conjunct2, THEN conjunct1,
             rule_format, OF n]
  have r3: "renderNode byteCompare noteParams
     = renderNode byteCompare (noteParams \<lparr> p_schema := typed ''string'' \<rparr>)" .
  from r1 r2 r3 show ?thesis by blast
qed

text \<open>
  When the single non-null variant is a one-element \<open>enum\<close>, rendering that variant
  gives a segmented control with its one option.
\<close>

lemma nullable_enum_renders_one_button:
  "renderNode byteCompare
     (paramsFor (anyOfSchema [enumOf [JStr ''on''], typed ''null'']) JUndefined [SStr ''mode''] [])
   = VSegmented
       \<lparr> sg_label = Some ''Mode'', sg_assist = None,
         sg_buttons = [\<lparr> sb_text = ''on'', sb_active = False, sb_disabled = False,
                          sb_click = ([SStr ''mode''], JStr ''on'') \<rparr>] \<rparr>"
  by code_simp

section \<open>Arrays: adding and removing items\<close>






section \<open>Objects: the order of the properties\<close>

lemma mset_insertSorted: "mset (insertSorted cmp x ys) = add_mset x (mset ys)"
  by (induction ys) auto

lemma mset_toSorted: "mset (toSorted cmp xs) = mset xs"
  unfolding toSorted_def by (induction xs) (auto simp: mset_insertSorted)

lemma sorted_insertSorted:
  assumes total: "\<And>a b. cmp a b \<le> 0 \<or> cmp b a \<le> 0"
    and trans: "\<And>a b c. cmp a b \<le> 0 \<Longrightarrow> cmp b c \<le> 0 \<Longrightarrow> cmp a c \<le> 0"
    and sorted: "sorted_wrt (\<lambda>a b. cmp a b \<le> 0) ys"
  shows "sorted_wrt (\<lambda>a b. cmp a b \<le> 0) (insertSorted cmp x ys)"
  using sorted
proof (induction ys)
  case Nil
  then show ?case by simp
next
  case (Cons y ys)
  show ?case
  proof (cases "cmp x y \<le> 0")
    case True
    have "\<forall>z \<in> set ys. cmp x z \<le> 0"
      using True Cons.prems trans by auto
    with True Cons.prems show ?thesis by simp
  next
    case False
    then have yx: "cmp y x \<le> 0" using total [of x y] by simp
    have "sorted_wrt (\<lambda>a b. cmp a b \<le> 0) (insertSorted cmp x ys)"
      using Cons by simp
    moreover have "\<forall>z \<in> set (insertSorted cmp x ys). cmp y z \<le> 0"
      using yx Cons.prems by (auto simp: set_insertSorted)
    ultimately show ?thesis using False by simp
  qed
qed

lemma sorted_toSorted:
  assumes total: "\<And>a b. cmp a b \<le> 0 \<or> cmp b a \<le> 0"
    and trans: "\<And>a b c. cmp a b \<le> 0 \<Longrightarrow> cmp b c \<le> 0 \<Longrightarrow> cmp a c \<le> 0"
  shows "sorted_wrt (\<lambda>a b. cmp a b \<le> 0) (toSorted cmp xs)"
  unfolding toSorted_def
proof (induction xs)
  case Nil
  then show ?case by simp
next
  case (Cons x xs)
  then show ?case
    using sorted_insertSorted [of cmp "foldr (insertSorted cmp) xs []" x] total trans
    by simp
qed

lemma compareEntries_before:
  "(compareEntries lc path hints a b \<le> 0) = entryBefore lc path hints a b"
  by (auto simp: compareEntries_def entryBefore_def Let_def)

lemma entryBefore_total:
  assumes "consistentCompare lc"
  shows "entryBefore lc path hints a b \<or> entryBefore lc path hints b a"
proof -
  from assms have "lc (fst a) (fst b) \<le> 0 \<or> lc (fst b) (fst a) \<le> 0"
    unfolding consistentCompare_def by blast
  then show ?thesis
    unfolding entryBefore_def by auto
qed

lemma entryBefore_trans:
  assumes "consistentCompare lc"
    and "entryBefore lc path hints a b" and "entryBefore lc path hints b c"
  shows "entryBefore lc path hints a c"
proof -
  from assms(1) have "lc (fst a) (fst b) \<le> 0 \<Longrightarrow> lc (fst b) (fst c) \<le> 0 \<Longrightarrow> lc (fst a) (fst c) \<le> 0"
    unfolding consistentCompare_def by blast
  with assms(2,3) show ?thesis
    unfolding entryBefore_def by auto
qed

lemma sortedEntries_sorted:
  assumes "consistentCompare lc"
  shows "sorted_wrt (entryBefore lc path hints) (sortedEntries lc path hints schema)"
proof -
  have "sorted_wrt (\<lambda>a b. compareEntries lc path hints a b \<le> 0)
          (toSorted (compareEntries lc path hints) (schemaProperties schema))"
  proof (rule sorted_toSorted)
    fix a b
    show "compareEntries lc path hints a b \<le> 0 \<or> compareEntries lc path hints b a \<le> 0"
      using entryBefore_total [OF assms] by (simp add: compareEntries_before)
  next
    fix a b c
    assume "compareEntries lc path hints a b \<le> 0" "compareEntries lc path hints b c \<le> 0"
    then show "compareEntries lc path hints a c \<le> 0"
      using entryBefore_trans [OF assms] by (simp add: compareEntries_before)
  qed
  then show ?thesis
    by (simp add: compareEntries_before sortedEntries_def schemaProperties_def)
qed


subsection \<open>Grouping keeps the order\<close>

lemma groupKeyOfGroup_new:
  "groupKeyOfGroup \<lparr> fg_label = groupLabelOf path hints k,
                     fg_advanced = groupAdvancedOf path hints k,
                     fg_entries = es \<rparr> = groupKeyOf path hints k"
  by (simp add: groupKeyOfGroup_def groupKeyOf_def)

lemma groupKeyOfGroup_entries [simp]:
  "groupKeyOfGroup (g \<lparr> fg_entries := es \<rparr>) = groupKeyOfGroup g"
  by (simp add: groupKeyOfGroup_def)

lemma groupLoop_cover:
  "indexAgrees groups indexByKey \<Longrightarrow> groupsCover path hints groups seen \<Longrightarrow>
   groupsCover path hints (groupLoop path hints rest groups indexByKey) (seen @ rest)"
proof (induction rest arbitrary: groups indexByKey seen)
  case Nil
  then show ?case by simp
next
  case (Cons entry rest)
  let ?k = "groupKeyOf path hints (fst entry)"
  show ?case
  proof (cases "map_of indexByKey ?k")
    case None
    let ?new = "\<lparr> fg_label = groupLabelOf path hints (fst entry),
                  fg_advanced = groupAdvancedOf path hints (fst entry),
                  fg_entries = [entry] \<rparr>"
    let ?groups = "groups @ [?new]"
    let ?index = "(?k, length groups) # indexByKey"
    have fresh: "\<forall>i < length groups. groupKeyOfGroup (groups ! i) \<noteq> ?k"
      using None Cons.prems(1) unfolding indexAgrees_def by (metis option.distinct(1))
    have unseen: "\<forall>e \<in> set seen. groupKeyOf path hints (fst e) \<noteq> ?k"
      using fresh Cons.prems(2) unfolding groupsCover_def by metis
    have agrees: "indexAgrees ?groups ?index"
      unfolding indexAgrees_def
    proof (intro allI)
      fix k i
      show "(map_of ?index k = Some i)
          = (i < length ?groups \<and> groupKeyOfGroup (?groups ! i) = k)"
      proof (cases "i < length groups")
        case True
        then have "groupKeyOfGroup (groups ! i) \<noteq> ?k" using fresh by simp
        with True Cons.prems(1) show ?thesis
          unfolding indexAgrees_def by (auto simp: nth_append)
      next
        case False
        then have "map_of indexByKey k \<noteq> Some i"
          using Cons.prems(1) unfolding indexAgrees_def by simp
        with False show ?thesis
          by (auto simp: nth_append groupKeyOfGroup_new)
      qed
    qed
    have cover: "groupsCover path hints ?groups (seen @ [entry])"
      unfolding groupsCover_def
    proof (intro conjI allI impI ballI)
      fix i
      assume i: "i < length ?groups"
      show "fg_entries (?groups ! i)
          = filter (\<lambda>e. groupKeyOf path hints (fst e) = groupKeyOfGroup (?groups ! i))
              (seen @ [entry])"
      proof (cases "i < length groups")
        case True
        then have "groupKeyOfGroup (groups ! i) \<noteq> ?k" using fresh by simp
        moreover have "fg_entries (groups ! i)
            = filter (\<lambda>e. groupKeyOf path hints (fst e) = groupKeyOfGroup (groups ! i)) seen"
          using True Cons.prems(2) unfolding groupsCover_def by simp
        ultimately show ?thesis using True by (auto simp: nth_append)
      next
        case False
        with i have "i = length groups" by simp
        moreover have "filter (\<lambda>e. groupKeyOf path hints (fst e) = ?k) seen = []"
          using unseen by (simp add: filter_empty_conv)
        ultimately show ?thesis by (simp add: groupKeyOfGroup_new)
      qed
    next
      fix e
      assume "e \<in> set (seen @ [entry])"
      then consider "e \<in> set seen" | "e = entry" by auto
      then show "\<exists>i < length ?groups.
          groupKeyOfGroup (?groups ! i) = groupKeyOf path hints (fst e)"
      proof cases
        case 1
        then obtain i where "i < length groups"
          "groupKeyOfGroup (groups ! i) = groupKeyOf path hints (fst e)"
          using Cons.prems(2) unfolding groupsCover_def by blast
        then show ?thesis by (auto simp: nth_append intro!: exI [of _ i])
      next
        case 2
        then show ?thesis
          by (auto simp: groupKeyOfGroup_new intro!: exI [of _ "length groups"])
      qed
    qed
    have "groupsCover path hints (groupLoop path hints rest ?groups ?index) ((seen @ [entry]) @ rest)"
      using agrees cover by (rule Cons.IH)
    with None show ?thesis by simp
  next
    case (Some i)
    then have i: "i < length groups" and ki: "groupKeyOfGroup (groups ! i) = ?k"
      using Cons.prems(1) unfolding indexAgrees_def by auto
    let ?g = "(groups ! i) \<lparr> fg_entries := fg_entries (groups ! i) @ [entry] \<rparr>"
    let ?groups = "groups [i := ?g]"
    have key: "groupKeyOfGroup (?groups ! j) = groupKeyOfGroup (groups ! j)"
      if "j < length groups" for j
      using that by (cases "j = i") (simp_all add: groupKeyOfGroup_def)
    have agrees: "indexAgrees ?groups indexByKey"
      using Cons.prems(1) key unfolding indexAgrees_def by (metis length_list_update)
    have others: "\<And>j. j < length groups \<Longrightarrow> j \<noteq> i \<Longrightarrow> groupKeyOfGroup (groups ! j) \<noteq> ?k"
    proof
      fix j
      assume "j < length groups" "j \<noteq> i" "groupKeyOfGroup (groups ! j) = ?k"
      then have "map_of indexByKey ?k = Some j"
        using Cons.prems(1) unfolding indexAgrees_def by blast
      with Some \<open>j \<noteq> i\<close> show False by simp
    qed
    have cover: "groupsCover path hints ?groups (seen @ [entry])"
      unfolding groupsCover_def
    proof (intro conjI allI impI ballI)
      fix j
      assume "j < length ?groups"
      then have j: "j < length groups" by simp
      have old: "fg_entries (groups ! j)
            = filter (\<lambda>e. groupKeyOf path hints (fst e) = groupKeyOfGroup (groups ! j)) seen"
        using j Cons.prems(2) unfolding groupsCover_def by simp
      show "fg_entries (?groups ! j)
          = filter (\<lambda>e. groupKeyOf path hints (fst e) = groupKeyOfGroup (?groups ! j))
              (seen @ [entry])"
      proof (cases "j = i")
        case True
        with i old ki show ?thesis by simp
      next
        case False
        with j old others [OF j False] show ?thesis by (auto simp: nth_list_update)
      qed
    next
      fix e
      assume "e \<in> set (seen @ [entry])"
      then consider "e \<in> set seen" | "e = entry" by auto
      then show "\<exists>j < length ?groups.
          groupKeyOfGroup (?groups ! j) = groupKeyOf path hints (fst e)"
      proof cases
        case 1
        then obtain j where "j < length groups"
          "groupKeyOfGroup (groups ! j) = groupKeyOf path hints (fst e)"
          using Cons.prems(2) unfolding groupsCover_def by blast
        then show ?thesis using key by (auto intro!: exI [of _ j])
      next
        case 2
        with i ki key show ?thesis by (auto intro!: exI [of _ i])
      qed
    qed
    have "groupsCover path hints (groupLoop path hints rest ?groups indexByKey) ((seen @ [entry]) @ rest)"
      using agrees cover by (rule Cons.IH)
    with Some i show ?thesis by simp
  qed
qed

lemma groupEntries_cover: "groupsCover path hints (groupEntries path hints entries) entries"
  using groupLoop_cover [of "[]" "[]" path hints "[]" entries]
  by (simp add: groupEntries_def indexAgrees_def groupsCover_def)

lemma groupEntries_filter:
  "g \<in> set (groupEntries path hints entries) \<Longrightarrow>
   fg_entries g = filter (\<lambda>e. groupKeyOf path hints (fst e) = groupKeyOfGroup g) entries"
  using groupEntries_cover [of path hints entries] unfolding groupsCover_def
  by (metis in_set_conv_nth)

lemma fallbackEntries_all:
  assumes "\<not> useGroupedPresentation (groupEntries path hints entries)"
  shows "fallbackEntries (groupEntries path hints entries) entries = entries"
proof (cases "groupEntries path hints entries")
  case Nil
  then show ?thesis by (simp add: fallbackEntries_def)
next
  case (Cons g gs)
  with assms have gs: "gs = []" by (simp add: useGroupedPresentation_def)
  have cover: "groupsCover path hints [g] entries"
    using groupEntries_cover [of path hints entries] Cons gs by simp
  then have all: "\<forall>e \<in> set entries. groupKeyOfGroup g = groupKeyOf path hints (fst e)"
    unfolding groupsCover_def by auto
  from cover have "fg_entries g
      = filter (\<lambda>e. groupKeyOf path hints (fst e) = groupKeyOfGroup g) entries"
    unfolding groupsCover_def by auto
  also have "\<dots> = entries" using all by (simp add: filter_id_conv)
  finally show ?thesis using Cons by (simp add: fallbackEntries_def)
qed

lemma consistent_byteCompare: "consistentCompare byteCompare"
  by (auto simp: consistentCompare_def byteCompare_def)

text \<open>
  C7. \<open>renderObject\<close> renders the properties of an object schema sorted by ascending
  hint order (0 for a property without an order hint), ties broken by the comparison of
  the property names: the sorted list is a rearrangement of the schema's properties,
  it is what \<open>renderObjectFields\<close> receives, and \<open>renderObjectFields\<close> renders either
  all of it in that order or, group by group, the entries of the group in that order.
  The comparison of names is the platform's \<open>localeCompare\<close>, a consistent comparator.
\<close>

theorem renderObject_sorts_properties:
  assumes "consistentCompare lc"
  shows "mset (sortedEntries lc (p_path params) (p_hints params) (p_schema params))
           = mset (schemaProperties (p_schema params))
   \<and> sorted_wrt (entryBefore lc (p_path params) (p_hints params))
        (sortedEntries lc (p_path params) (p_hints params) (p_schema params))
   \<and> objectFields (renderObject lc params)
        = Some (renderObjectFields lc (objectFieldsParams lc params))
   \<and> fp_entries (objectFieldsParams lc params)
        = sortedEntries lc (p_path params) (p_hints params) (p_schema params)
   \<and> renderObjectFields lc fp =
       (if \<not> useGroupedPresentation (groupEntries (fp_path fp) (fp_hints fp) (fp_entries fp))
        then Flat (map (\<lambda>entry. renderNode lc (entryParams fp entry)) (fp_entries fp))
        else Grouped
               (map (\<lambda>group.
                       if fg_advanced group
                       then GroupAdvanced (fg_label group)
                              (map (\<lambda>entry. renderNode lc (entryParams fp entry))
                                 (filter (\<lambda>e. groupKeyOf (fp_path fp) (fp_hints fp) (fst e)
                                                = groupKeyOfGroup group)
                                    (fp_entries fp)))
                       else GroupSection
                              (if fg_label group \<noteq> ''General'' then Some (fg_label group) else None)
                              (map (\<lambda>entry. renderNode lc (entryParams fp entry))
                                 (filter (\<lambda>e. groupKeyOf (fp_path fp) (fp_hints fp) (fst e)
                                                = groupKeyOfGroup group)
                                    (fp_entries fp))))
                  (groupEntries (fp_path fp) (fp_hints fp) (fp_entries fp))))"
proof (intro conjI)
  show "mset (sortedEntries lc (p_path params) (p_hints params) (p_schema params))
           = mset (schemaProperties (p_schema params))"
    by (simp add: sortedEntries_def schemaProperties_def mset_toSorted)
  show "sorted_wrt (entryBefore lc (p_path params) (p_hints params))
        (sortedEntries lc (p_path params) (p_hints params) (p_schema params))"
    using assms by (rule sortedEntries_sorted)
  show "objectFields (renderObject lc params)
        = Some (renderObjectFields lc (objectFieldsParams lc params))"
    by (subst renderObject.simps) (simp add: objectFields_def)
  show "fp_entries (objectFieldsParams lc params)
        = sortedEntries lc (p_path params) (p_hints params) (p_schema params)"
    by (simp add: objectFieldsParams_def)
  show "renderObjectFields lc fp =
       (if \<not> useGroupedPresentation (groupEntries (fp_path fp) (fp_hints fp) (fp_entries fp))
        then Flat (map (\<lambda>entry. renderNode lc (entryParams fp entry)) (fp_entries fp))
        else Grouped
               (map (\<lambda>group.
                       if fg_advanced group
                       then GroupAdvanced (fg_label group)
                              (map (\<lambda>entry. renderNode lc (entryParams fp entry))
                                 (filter (\<lambda>e. groupKeyOf (fp_path fp) (fp_hints fp) (fst e)
                                                = groupKeyOfGroup group)
                                    (fp_entries fp)))
                       else GroupSection
                              (if fg_label group \<noteq> ''General'' then Some (fg_label group) else None)
                              (map (\<lambda>entry. renderNode lc (entryParams fp entry))
                                 (filter (\<lambda>e. groupKeyOf (fp_path fp) (fp_hints fp) (fst e)
                                                = groupKeyOfGroup group)
                                    (fp_entries fp))))
                  (groupEntries (fp_path fp) (fp_hints fp) (fp_entries fp))))"
  proof (cases "useGroupedPresentation (groupEntries (fp_path fp) (fp_hints fp) (fp_entries fp))")
    case False
    then show ?thesis
      by (subst renderObjectFields.simps) (simp add: fallbackEntries_all)
  next
    case True
    then show ?thesis
      by (subst renderObjectFields.simps) (simp add: groupEntries_filter cong: map_cong)
  qed
qed

theorem renderObject_sorts_properties_witness:
  "sorted_wrt (entryBefore byteCompare (p_path serverParams) (p_hints serverParams))
     [(''token'', typed ''string''), (''host'', typed ''string''), (''port'', typed ''number'')]
   \<and> mset [(''token'', typed ''string''), (''host'', typed ''string''), (''port'', typed ''number'')]
       = mset (schemaProperties (p_schema serverParams))
   \<and> objectFields (renderObject byteCompare serverParams)
       = Some (renderObjectFields byteCompare (objectFieldsParams byteCompare serverParams))"
proof -
  have run: "sortedEntries byteCompare (p_path serverParams) (p_hints serverParams)
        (p_schema serverParams)
      = [(''token'', typed ''string''), (''host'', typed ''string''), (''port'', typed ''number'')]"
    by code_simp
  show ?thesis
    using renderObject_sorts_properties [OF consistent_byteCompare, of serverParams]
    unfolding run by blast
qed

section \<open>Objects: collapsible nesting\<close>

text \<open>
  C8. An object node whose path has length 1 is rendered as its fields (and the editor
  of its additional properties, when the schema has one), with no collapsible wrapper;
  one whose path has length at least 2 is rendered as the same fields wrapped in a
  collapsible section with the node's label and help, open by default exactly when the
  path has length at most 2 and the node's hint does not mark it advanced. The fields
  are what \<open>renderObjectFields\<close> renders for the node's path and value and the
  properties of its schema: one rendered node for each property, in one list or group
  by group.
\<close>

theorem renderObject_collapsible:
  "(length (p_path params) = 1
      \<longrightarrow> renderObject lc params =
            VObjectTop
              (renderObjectFields lc (objectFieldsParams lc params))
              (case s_additionalProperties (p_schema params) of
                 AdditionalSchema additional \<Rightarrow>
                   Some (renderMapField lc (objectMapParams params additional))
               | _ \<Rightarrow> None))
   \<and> (2 \<le> length (p_path params)
      \<longrightarrow> renderObject lc params =
            VObjectDetails
              (length (p_path params) \<le> 2 \<and> \<not> hintAdvanced params)
              (fieldLabel params)
              (if truthyStr (nodeHelp (hintForPath (p_path params) (p_hints params))
                               (p_schema params))
               then nodeHelp (hintForPath (p_path params) (p_hints params)) (p_schema params)
               else None)
              (renderObjectFields lc (objectFieldsParams lc params))
              (case s_additionalProperties (p_schema params) of
                 AdditionalSchema additional \<Rightarrow>
                   Some (renderMapField lc (objectMapParams params additional))
               | _ \<Rightarrow> None))
   \<and> mset (fp_entries (objectFieldsParams lc params)) = mset (schemaProperties (p_schema params))
   \<and> fp_path (objectFieldsParams lc params) = p_path params
   \<and> fp_obj (objectFieldsParams lc params) = objectValue params
   \<and> renderObjectFields lc fp =
       (if \<not> useGroupedPresentation (groupEntries (fp_path fp) (fp_hints fp) (fp_entries fp))
        then Flat (map (\<lambda>entry. renderNode lc (entryParams fp entry)) (fp_entries fp))
        else Grouped
               (map (\<lambda>group.
                       if fg_advanced group
                       then GroupAdvanced (fg_label group)
                              (map (\<lambda>entry. renderNode lc (entryParams fp entry))
                                 (filter (\<lambda>e. groupKeyOf (fp_path fp) (fp_hints fp) (fst e)
                                                = groupKeyOfGroup group)
                                    (fp_entries fp)))
                       else GroupSection
                              (if fg_label group \<noteq> ''General'' then Some (fg_label group) else None)
                              (map (\<lambda>entry. renderNode lc (entryParams fp entry))
                                 (filter (\<lambda>e. groupKeyOf (fp_path fp) (fp_hints fp) (fst e)
                                                = groupKeyOfGroup group)
                                    (fp_entries fp))))
                  (groupEntries (fp_path fp) (fp_hints fp) (fp_entries fp))))"
proof (intro conjI impI)
  assume "length (p_path params) = 1"
  then show "renderObject lc params =
            VObjectTop
              (renderObjectFields lc (objectFieldsParams lc params))
              (case s_additionalProperties (p_schema params) of
                 AdditionalSchema additional \<Rightarrow>
                   Some (renderMapField lc (objectMapParams params additional))
               | _ \<Rightarrow> None)"
    by (subst renderObject.simps) simp
next
  have adv: "(case hintForPath (p_path params) (p_hints params) of
                None \<Rightarrow> True
              | Some h \<Rightarrow> h_advanced h \<noteq> Some True) = (\<not> hintAdvanced params)"
    by (simp add: hintAdvanced_def split: option.splits)
  assume "2 \<le> length (p_path params)"
  then show "renderObject lc params =
            VObjectDetails
              (length (p_path params) \<le> 2 \<and> \<not> hintAdvanced params)
              (fieldLabel params)
              (if truthyStr (nodeHelp (hintForPath (p_path params) (p_hints params))
                               (p_schema params))
               then nodeHelp (hintForPath (p_path params) (p_hints params)) (p_schema params)
               else None)
              (renderObjectFields lc (objectFieldsParams lc params))
              (case s_additionalProperties (p_schema params) of
                 AdditionalSchema additional \<Rightarrow>
                   Some (renderMapField lc (objectMapParams params additional))
               | _ \<Rightarrow> None)"
    by (subst renderObject.simps) (simp add: adv)
next
  show "mset (fp_entries (objectFieldsParams lc params)) = mset (schemaProperties (p_schema params))"
    by (simp add: objectFieldsParams_def sortedEntries_def schemaProperties_def mset_toSorted)
next
  show "fp_path (objectFieldsParams lc params) = p_path params"
    by (simp add: objectFieldsParams_def)
next
  show "fp_obj (objectFieldsParams lc params) = objectValue params"
    by (simp add: objectFieldsParams_def)
next
  show "renderObjectFields lc fp =
       (if \<not> useGroupedPresentation (groupEntries (fp_path fp) (fp_hints fp) (fp_entries fp))
        then Flat (map (\<lambda>entry. renderNode lc (entryParams fp entry)) (fp_entries fp))
        else Grouped
               (map (\<lambda>group.
                       if fg_advanced group
                       then GroupAdvanced (fg_label group)
                              (map (\<lambda>entry. renderNode lc (entryParams fp entry))
                                 (filter (\<lambda>e. groupKeyOf (fp_path fp) (fp_hints fp) (fst e)
                                                = groupKeyOfGroup group)
                                    (fp_entries fp)))
                       else GroupSection
                              (if fg_label group \<noteq> ''General'' then Some (fg_label group) else None)
                              (map (\<lambda>entry. renderNode lc (entryParams fp entry))
                                 (filter (\<lambda>e. groupKeyOf (fp_path fp) (fp_hints fp) (fst e)
                                                = groupKeyOfGroup group)
                                    (fp_entries fp))))
                  (groupEntries (fp_path fp) (fp_hints fp) (fp_entries fp))))"
  proof (cases "useGroupedPresentation (groupEntries (fp_path fp) (fp_hints fp) (fp_entries fp))")
    case False
    then show ?thesis
      by (subst renderObjectFields.simps) (simp add: fallbackEntries_all)
  next
    case True
    then show ?thesis
      by (subst renderObjectFields.simps) (simp add: groupEntries_filter cong: map_cong)
  qed
qed

theorem renderObject_collapsible_witness:
  "renderObject byteCompare gatewayParams
     = VObjectTop
         (Flat [VNumber \<lparr> ni_label = Some ''Port'', ni_assist = None, ni_disabled = False,
                  ni_value = [],
                  ni_decrement = ([SStr ''gateway'', SStr ''port''], JNum (- 1)),
                  ni_increment = ([SStr ''gateway'', SStr ''port''], JNum 1) \<rparr>])
         None
   \<and> renderObject byteCompare authAdvancedParams
     = VObjectDetails False ''Auth'' None
         (Flat [VNumber \<lparr> ni_label = Some ''Port'', ni_assist = None, ni_disabled = False,
                  ni_value = [],
                  ni_decrement = ([SStr ''gateway'', SStr ''auth'', SStr ''port''], JNum (- 1)),
                  ni_increment = ([SStr ''gateway'', SStr ''auth'', SStr ''port''], JNum 1) \<rparr>])
         None
   \<and> renderObject byteCompare authParams
     = VObjectDetails True ''Auth'' None
         (Flat [VNumber \<lparr> ni_label = Some ''Port'', ni_assist = None, ni_disabled = False,
                  ni_value = ''7'',
                  ni_decrement = ([SStr ''gateway'', SStr ''auth'', SStr ''port''], JNum 6),
                  ni_increment = ([SStr ''gateway'', SStr ''auth'', SStr ''port''], JNum 8) \<rparr>])
         None
   \<and> renderObject byteCompare deepParams
     = VObjectDetails False ''Deep'' None
         (Flat [VNumber \<lparr> ni_label = Some ''Port'', ni_assist = None, ni_disabled = False,
                  ni_value = ''7'',
                  ni_decrement =
                    ([SStr ''gateway'', SStr ''auth'', SStr ''deep'', SStr ''port''], JNum 6),
                  ni_increment =
                    ([SStr ''gateway'', SStr ''auth'', SStr ''deep'', SStr ''port''], JNum 8) \<rparr>])
         None"
proof -
  have len1: "length (p_path gatewayParams) = 1"
    by (simp add: gatewayParams_def paramsFor_def)
  have len2: "2 \<le> length (p_path authAdvancedParams)" "2 \<le> length (p_path authParams)"
    "2 \<le> length (p_path deepParams)"
    by (simp_all add: authAdvancedParams_def authParams_def deepParams_def paramsFor_def)
  note top = renderObject_collapsible [of gatewayParams byteCompare, THEN conjunct1, THEN mp, OF len1]
  note advanced = renderObject_collapsible [of authAdvancedParams byteCompare,
      THEN conjunct2, THEN conjunct1, THEN mp, OF len2(1)]
  note nested = renderObject_collapsible [of authParams byteCompare,
      THEN conjunct2, THEN conjunct1, THEN mp, OF len2(2)]
  note deep = renderObject_collapsible [of deepParams byteCompare,
      THEN conjunct2, THEN conjunct1, THEN mp, OF len2(3)]
  have topView: "VObjectTop
        (renderObjectFields byteCompare (objectFieldsParams byteCompare gatewayParams))
        (case s_additionalProperties (p_schema gatewayParams) of
           AdditionalSchema additional \<Rightarrow>
             Some (renderMapField byteCompare (objectMapParams gatewayParams additional))
         | _ \<Rightarrow> None)
      = VObjectTop
         (Flat [VNumber \<lparr> ni_label = Some ''Port'', ni_assist = None, ni_disabled = False,
                  ni_value = [],
                  ni_decrement = ([SStr ''gateway'', SStr ''port''], JNum (- 1)),
                  ni_increment = ([SStr ''gateway'', SStr ''port''], JNum 1) \<rparr>])
         None"
    by code_simp
  have advancedView: "VObjectDetails
        (length (p_path authAdvancedParams) \<le> 2 \<and> \<not> hintAdvanced authAdvancedParams)
        (fieldLabel authAdvancedParams)
        (if truthyStr (nodeHelp (hintForPath (p_path authAdvancedParams) (p_hints authAdvancedParams))
                         (p_schema authAdvancedParams))
         then nodeHelp (hintForPath (p_path authAdvancedParams) (p_hints authAdvancedParams))
                (p_schema authAdvancedParams)
         else None)
        (renderObjectFields byteCompare (objectFieldsParams byteCompare authAdvancedParams))
        (case s_additionalProperties (p_schema authAdvancedParams) of
           AdditionalSchema additional \<Rightarrow>
             Some (renderMapField byteCompare (objectMapParams authAdvancedParams additional))
         | _ \<Rightarrow> None)
      = VObjectDetails False ''Auth'' None
         (Flat [VNumber \<lparr> ni_label = Some ''Port'', ni_assist = None, ni_disabled = False,
                  ni_value = [],
                  ni_decrement = ([SStr ''gateway'', SStr ''auth'', SStr ''port''], JNum (- 1)),
                  ni_increment = ([SStr ''gateway'', SStr ''auth'', SStr ''port''], JNum 1) \<rparr>])
         None"
    by code_simp
  have nestedView: "VObjectDetails
        (length (p_path authParams) \<le> 2 \<and> \<not> hintAdvanced authParams)
        (fieldLabel authParams)
        (if truthyStr (nodeHelp (hintForPath (p_path authParams) (p_hints authParams))
                         (p_schema authParams))
         then nodeHelp (hintForPath (p_path authParams) (p_hints authParams)) (p_schema authParams)
         else None)
        (renderObjectFields byteCompare (objectFieldsParams byteCompare authParams))
        (case s_additionalProperties (p_schema authParams) of
           AdditionalSchema additional \<Rightarrow>
             Some (renderMapField byteCompare (objectMapParams authParams additional))
         | _ \<Rightarrow> None)
      = VObjectDetails True ''Auth'' None
         (Flat [VNumber \<lparr> ni_label = Some ''Port'', ni_assist = None, ni_disabled = False,
                  ni_value = ''7'',
                  ni_decrement = ([SStr ''gateway'', SStr ''auth'', SStr ''port''], JNum 6),
                  ni_increment = ([SStr ''gateway'', SStr ''auth'', SStr ''port''], JNum 8) \<rparr>])
         None"
    by code_simp
  have deepView: "VObjectDetails
        (length (p_path deepParams) \<le> 2 \<and> \<not> hintAdvanced deepParams)
        (fieldLabel deepParams)
        (if truthyStr (nodeHelp (hintForPath (p_path deepParams) (p_hints deepParams))
                         (p_schema deepParams))
         then nodeHelp (hintForPath (p_path deepParams) (p_hints deepParams)) (p_schema deepParams)
         else None)
        (renderObjectFields byteCompare (objectFieldsParams byteCompare deepParams))
        (case s_additionalProperties (p_schema deepParams) of
           AdditionalSchema additional \<Rightarrow>
             Some (renderMapField byteCompare (objectMapParams deepParams additional))
         | _ \<Rightarrow> None)
      = VObjectDetails False ''Deep'' None
         (Flat [VNumber \<lparr> ni_label = Some ''Port'', ni_assist = None, ni_disabled = False,
                  ni_value = ''7'',
                  ni_decrement =
                    ([SStr ''gateway'', SStr ''auth'', SStr ''deep'', SStr ''port''], JNum 6),
                  ni_increment =
                    ([SStr ''gateway'', SStr ''auth'', SStr ''deep'', SStr ''port''], JNum 8) \<rparr>])
         None"
    by code_simp
  from top [unfolded topView] advanced [unfolded advancedView] nested [unfolded nestedView]
    deep [unfolded deepView]
  show ?thesis by (intro conjI)
qed

section \<open>The repository's tests, on the model\<close>

text \<open>
  The cases of the repository's test of the form renderer that concern \<open>renderNode\<close>
  and the engine, evaluated on the model: the array editor's add and remove patches, the
  buttons of a union of literals, the fallback hint of \<open>channels.*.allowBots\<close>, the
  impact warning with its quick fix, and the grouping of fields.
\<close>

lemma test_adds_and_removes_array_entries:
  "arrayPatches (renderNode byteCompare
      (paramsFor (arrayOf (typed ''string'')) (JArr [JStr ''+1'']) [SStr ''allowFrom''] []))
   = [([SStr ''allowFrom''], JArr [JStr ''+1'', JStr []]), ([SStr ''allowFrom''], JArr [])]"
  by code_simp

lemma test_union_literals_as_buttons:
  "buttonPatches (renderNode byteCompare bindParams)
   = [([SStr ''bind''], JStr ''auto''), ([SStr ''bind''], JStr ''lan''),
      ([SStr ''bind''], JStr ''tailnet''), ([SStr ''bind''], JStr ''loopback'')]"
  by code_simp

lemma test_fallback_hints:
  "map r_relation (resolveConfigImpacts_fb [SStr ''channels'', SStr ''discord'', SStr ''allowBots'']
      [] (JObj [(''channels'', JObj [(''discord'', JObj [(''allowBots'', JBool True)])])]))
   = [''risk'']
   \<and> toDocsUrl (case hintForPath_fb [SStr ''channels'', SStr ''discord'', SStr ''allowBots''] [] of
                  None \<Rightarrow> None | Some h \<Rightarrow> h_docsPath h)
     = Some ''https://docs.openclaw.ai/gateway/configuration''"
  by code_simp

lemma test_impact_warning_and_quick_fix:
  "renderFieldAssist [SStr ''channels'', SStr ''discord'', SStr ''actions'', SStr ''roles'']
     rolesHints None rolesRoot False
   = Some \<lparr> as_help = None,
            as_docsUrl = Some ''https://docs.openclaw.ai/channels/discord'',
            as_impacts =
              [\<lparr> iv_tone = ''danger'',
                 iv_message = ''Role management depends on permissions actions being enabled.'',
                 iv_docsHref = None,
                 iv_fix = Some \<lparr> b_text = ''Enable permissions'', b_disabled = False,
                                 b_click = ([SStr ''channels'', SStr ''discord'', SStr ''actions'',
                                             SStr ''permissions''], JBool True) \<rparr> \<rparr>] \<rparr>"
  by code_simp

lemma test_groups_fields:
  "map (\<lambda>g. (fg_label g, fg_advanced g, map fst (fg_entries g)))
     (groupEntries [SStr ''server''] groupedHints
        (sortedEntries byteCompare [SStr ''server''] groupedHints
           (objectOf [(''host'', typed ''string''), (''port'', typed ''number''),
                      (''token'', typed ''string'')])))
   = [(''Connection'', False, [''host'', ''port'']), (''Security'', True, [''token''])]"
  by code_simp

end
